theory Spec2Isabelle
  imports Main "HOL-Library.Sublist" "HOL-Library.Word"
begin

section \<open>Strings\<close>

text \<open>
  A JavaScript string is a sequence of 16-bit code units (UTF-16). The text the user
  types and the store returns (titles, ingredients, instructions, the search term) is a
  \<open>jsstring\<close>. The fixed literals of the program and the values nothing looks into
  (ids, time stamps, messages, the filter values of the two select boxes) stay HOL
  strings. \<open>js\<close> turns an ASCII literal into its code units.
\<close>

type_synonym code_unit = "16 word"

type_synonym jsstring = "code_unit list"

definition js :: "string \<Rightarrow> jsstring" where
  "js s = map (\<lambda>c. of_nat (of_char c)) s"

text \<open>
  \<open>s.includes(t)\<close>, named \<open>includes_str\<close> here since \<open>includes\<close> is a
  keyword: does \<open>t\<close> occur in \<open>s\<close> at some position? The search tries position 0,
  then the positions of the rest of \<open>s\<close>.
\<close>

fun includes_str :: "jsstring \<Rightarrow> jsstring \<Rightarrow> bool" where
  "includes_str [] t = (t = [])"
| "includes_str (c # s) t = (prefix t (c # s) \<or> includes_str s t)"

text \<open>
  \<open>s.trim()\<close> drops white space and line terminators at both ends: tab, line feed,
  vertical tab, form feed, carriage return, the byte order mark U+FEFF, the line and
  paragraph separators U+2028 and U+2029, and the space separators (space, no-break
  space, U+1680, U+2000 to U+200A, U+202F, U+205F, U+3000). All of them are single code
  units.
\<close>

definition isWhiteSpace :: "code_unit \<Rightarrow> bool" where
  "isWhiteSpace c =
     (c \<in> {0x9, 0xA, 0xB, 0xC, 0xD, 0x20, 0xA0, 0x1680, 0x2028, 0x2029, 0x202F, 0x205F,
            0x3000, 0xFEFF} \<or>
      (0x2000 \<le> c \<and> c \<le> 0x200A))"

definition trim :: "jsstring \<Rightarrow> jsstring" where
  "trim s = rev (dropWhile isWhiteSpace (rev (dropWhile isWhiteSpace s)))"

subsection \<open>Lower case\<close>

text \<open>
  \<open>String.prototype.toLowerCase\<close> reads the string as code points (a lead surrogate
  followed by a trail surrogate is one code point, any other code unit is one by
  itself), maps every code point to its lower-case mapping, and writes the code points
  back as code units.
\<close>

definition is_lead :: "code_unit \<Rightarrow> bool" where
  "is_lead u = (0xD800 \<le> u \<and> u \<le> 0xDBFF)"

definition is_trail :: "code_unit \<Rightarrow> bool" where
  "is_trail u = (0xDC00 \<le> u \<and> u \<le> 0xDFFF)"

fun StringToCodePoints :: "jsstring \<Rightarrow> nat list" where
  "StringToCodePoints [] = []"
| "StringToCodePoints [u] = [unat u]"
| "StringToCodePoints (u # v # s) =
     (if is_lead u \<and> is_trail v
      then (0x10000 + (unat u - 0xD800) * 0x400 + (unat v - 0xDC00)) # StringToCodePoints s
      else unat u # StringToCodePoints (v # s))"

definition UTF16EncodeCodePoint :: "nat \<Rightarrow> jsstring" where
  "UTF16EncodeCodePoint cp =
     (if cp \<le> 0xFFFF then [of_nat cp]
      else [of_nat ((cp - 0x10000) div 0x400 + 0xD800),
            of_nat ((cp - 0x10000) mod 0x400 + 0xDC00)])"

definition CodePointsToString :: "nat list \<Rightarrow> jsstring" where
  "CodePointsToString cps = concat (map UTF16EncodeCodePoint cps)"

text \<open>
  The lower-case mapping of a code point is data of the Unicode Character Database that
  the engine carries, and it may depend on the code points around it and have more than
  one code point. It is a parameter here: \<open>m before c after\<close> is the mapping of \<open>c\<close>
  when \<open>before\<close> precedes it and \<open>after\<close> follows it in the string.
\<close>

type_synonym case_mapping = "nat list \<Rightarrow> nat \<Rightarrow> nat list \<Rightarrow> nat list"

fun toLowercase :: "case_mapping \<Rightarrow> nat list \<Rightarrow> nat list \<Rightarrow> nat list" where
  "toLowercase m before [] = []"
| "toLowercase m before (c # after) = m before c after @ toLowercase m (before @ [c]) after"

definition toLowerCase :: "case_mapping \<Rightarrow> jsstring \<Rightarrow> jsstring" where
  "toLowerCase m s = CodePointsToString (toLowercase m [] (StringToCodePoints s))"

text \<open>
  An excerpt of the Unicode data, for the examples: it gives the mapping on Basic Latin
  and Latin-1 (U+0000 to U+00FF), on the Greek letters U+0391 to U+03CB, on U+0130 and
  on U+0307, and leaves every other code point as it is. \<open>A\<close> to \<open>Z\<close>, the Latin-1
  capitals and the Greek capitals move up by 32; the capital I with dot above becomes
  \<open>i\<close> and a combining dot; the capital sigma U+03A3 becomes the final sigma U+03C2
  when a cased letter precedes it, with only case-ignorable code points in between, and
  no cased letter follows it in the same way, and the sigma U+03C3 otherwise.
\<close>

definition cased_excerpt :: "nat \<Rightarrow> bool" where
  "cased_excerpt c =
     ((0x41 \<le> c \<and> c \<le> 0x5A) \<or> (0x61 \<le> c \<and> c \<le> 0x7A) \<or> c \<in> {0xAA, 0xB5, 0xBA} \<or>
      (0xC0 \<le> c \<and> c \<le> 0xFF \<and> c \<noteq> 0xD7 \<and> c \<noteq> 0xF7) \<or> c = 0x130 \<or>
      (0x391 \<le> c \<and> c \<le> 0x3CB \<and> c \<noteq> 0x3A2))"

definition case_ignorable_excerpt :: "nat \<Rightarrow> bool" where
  "case_ignorable_excerpt c =
     (c \<in> {0x27, 0x2E, 0x3A, 0x5E, 0x60, 0xA8, 0xAD, 0xAF, 0xB4, 0xB7, 0xB8, 0x307})"

fun cased_after_ignorables :: "nat list \<Rightarrow> bool" where
  "cased_after_ignorables [] = False"
| "cased_after_ignorables (c # cs) =
     (cased_excerpt c \<or> (case_ignorable_excerpt c \<and> cased_after_ignorables cs))"

definition Final_Sigma :: "nat list \<Rightarrow> nat list \<Rightarrow> bool" where
  "Final_Sigma before after =
     (cased_after_ignorables (rev before) \<and> \<not> cased_after_ignorables after)"

definition unicode_excerpt :: case_mapping where
  "unicode_excerpt before c after =
     (if c = 0x3A3 then (if Final_Sigma before after then [0x3C2] else [0x3C3])
      else if c = 0x130 then [0x69, 0x307]
      else if (0x41 \<le> c \<and> c \<le> 0x5A) \<or> (0xC0 \<le> c \<and> c \<le> 0xDE \<and> c \<noteq> 0xD7) \<or>
              (0x391 \<le> c \<and> c \<le> 0x3AB \<and> c \<noteq> 0x3A2)
      then [c + 32]
      else [c])"

section \<open>The recipe entity\<close>

datatype difficulty = Easy | Medium | Hard

datatype cuisine =
  Italian | Mexican | Asian | American | French | Indian | Mediterranean | Other

text \<open>
  In the source both enumerations are unions of string literals, and the filter
  compares them with a string; these are the literals.
\<close>

fun difficulty_str :: "difficulty \<Rightarrow> string" where
  "difficulty_str Easy = ''easy''"
| "difficulty_str Medium = ''medium''"
| "difficulty_str Hard = ''hard''"

fun cuisine_str :: "cuisine \<Rightarrow> string" where
  "cuisine_str Italian = ''italian''"
| "cuisine_str Mexican = ''mexican''"
| "cuisine_str Asian = ''asian''"
| "cuisine_str American = ''american''"
| "cuisine_str French = ''french''"
| "cuisine_str Indian = ''indian''"
| "cuisine_str Mediterranean = ''mediterranean''"
| "cuisine_str Other = ''other''"

text \<open>
  \<open>Omit<Recipe, 'id'>\<close> of the form, which is also \<open>Omit<Recipe, 'id' | 'created_at'>\<close>
  of the dashboard: the draft. An optional number is \<open>None\<close> when \<open>undefined\<close>.
\<close>

record draft =
  title :: jsstring
  ingredients :: "jsstring list"
  instructions :: jsstring
  difficulty :: difficulty
  cuisine :: cuisine
  prep_time :: "int option"
  cook_time :: "int option"
  servings :: "int option"

text \<open>
  The dashboard's \<open>Recipe\<close>: a draft with the two fields the store assigns. The field
  \<open>id\<close> is \<open>id_recipe\<close> here, \<open>id\<close> being the identity function of HOL.
\<close>

record recipe = draft +
  id_recipe :: string
  created_at :: string

section \<open>The dashboard\<close>

text \<open>
  The component state of \<open>Dashboard\<close>, one field per \<open>useState\<close>, in the order of
  the source.
\<close>

record dashboard =
  recipes :: "recipe list"
  loading :: bool
  showForm :: bool
  editingRecipe :: "recipe option"
  searchTerm :: jsstring
  cuisineFilter :: string
  difficultyFilter :: string
  deleteDialogOpen :: bool
  recipeToDelete :: "string option"

subsection \<open>The filter\<close>

text \<open>
  \<open>filteredRecipes\<close>, with the lower-case mapping \<open>m\<close> of the engine that runs it.
\<close>

definition matchesSearch :: "case_mapping \<Rightarrow> jsstring \<Rightarrow> recipe \<Rightarrow> bool" where
  "matchesSearch m term r =
     (includes_str (toLowerCase m (title r)) (toLowerCase m term) \<or>
      list_ex (\<lambda>ingredient. includes_str (toLowerCase m ingredient) (toLowerCase m term))
        (ingredients r))"

definition matchesCuisine :: "string \<Rightarrow> recipe \<Rightarrow> bool" where
  "matchesCuisine flt r = (flt = ''all'' \<or> cuisine_str (cuisine r) = flt)"

definition matchesDifficulty :: "string \<Rightarrow> recipe \<Rightarrow> bool" where
  "matchesDifficulty flt r = (flt = ''all'' \<or> difficulty_str (difficulty r) = flt)"

definition filteredRecipes :: "case_mapping \<Rightarrow> 'a dashboard_scheme \<Rightarrow> recipe list" where
  "filteredRecipes m s =
     filter (\<lambda>r. matchesSearch m (searchTerm s) r \<and> matchesCuisine (cuisineFilter s) r \<and>
                 matchesDifficulty (difficultyFilter s) r)
       (recipes s)"

subsection \<open>The criteria of the filter in words\<close>

text \<open>
  \<open>s\<close> contains \<open>t\<close> after lower-casing when the lower-cased \<open>t\<close> is a contiguous
  piece of the lower-cased \<open>s\<close>.
\<close>

definition lowered_contains :: "case_mapping \<Rightarrow> jsstring \<Rightarrow> jsstring \<Rightarrow> bool" where
  "lowered_contains m s t = (\<exists>ps ss. toLowerCase m s = ps @ toLowerCase m t @ ss)"

definition spec_matches_text :: "case_mapping \<Rightarrow> jsstring \<Rightarrow> recipe \<Rightarrow> bool" where
  "spec_matches_text m txt r =
     (lowered_contains m (title r) txt \<or>
      (\<exists>i \<in> set (ingredients r). lowered_contains m i txt))"

text \<open>
  Containment up to case, for text in Basic Latin (ASCII, the code units below 0x80):
  two code units are the same letter when they are equal or one is a capital \<open>A\<close> to
  \<open>Z\<close> and the other the small letter 32 places up; \<open>s\<close> contains \<open>t\<close> up to
  case when a contiguous piece of \<open>s\<close> agrees with \<open>t\<close> letter by letter. A
  lower-case mapping is faithful on ASCII when there, whatever the context, it moves
  the capitals up by 32 and leaves the rest, as the Unicode data do.
\<close>

definition is_ascii :: "jsstring \<Rightarrow> bool" where
  "is_ascii s = list_all (\<lambda>u. u < 0x80) s"

definition same_letter :: "code_unit \<Rightarrow> code_unit \<Rightarrow> bool" where
  "same_letter c d =
     (c = d \<or> (0x41 \<le> c \<and> c \<le> 0x5A \<and> d = c + 0x20) \<or>
      (0x41 \<le> d \<and> d \<le> 0x5A \<and> c = d + 0x20))"

definition contains_ignoring_case :: "jsstring \<Rightarrow> jsstring \<Rightarrow> bool" where
  "contains_ignoring_case s t = (\<exists>ps u ss. s = ps @ u @ ss \<and> list_all2 same_letter u t)"

definition ascii_faithful :: "case_mapping \<Rightarrow> bool" where
  "ascii_faithful m =
     (\<forall>before c after.
        c < 0x80 \<longrightarrow> m before c after = [if 0x41 \<le> c \<and> c \<le> 0x5A then c + 32 else c])"

text \<open>What such a mapping does to one ASCII code unit.\<close>

definition ascii_lower :: "code_unit \<Rightarrow> code_unit" where
  "ascii_lower u = (if 0x41 \<le> u \<and> u \<le> 0x5A then u + 0x20 else u)"

definition spec_matches_cuisine :: "string \<Rightarrow> recipe \<Rightarrow> bool" where
  "spec_matches_cuisine flt r = (flt = ''all'' \<or> flt = cuisine_str (cuisine r))"

definition spec_matches_difficulty :: "string \<Rightarrow> recipe \<Rightarrow> bool" where
  "spec_matches_difficulty flt r = (flt = ''all'' \<or> flt = difficulty_str (difficulty r))"

section \<open>The recipe form\<close>

text \<open>The initial value of \<open>formData\<close> (the argument of \<open>useState\<close>).\<close>

definition initial_formData :: draft where
  "initial_formData =
     \<lparr>title = [], ingredients = [[]], instructions = [], difficulty = Medium,
      cuisine = Other, prep_time = None, cook_time = None, servings = Some 4\<rparr>"

text \<open>
  The effect hook on the \<open>recipe\<close> property: with a recipe to edit, the draft is
  replaced by the recipe's fields; without one, nothing happens.
\<close>

definition seedFormData :: "recipe option \<Rightarrow> draft \<Rightarrow> draft" where
  "seedFormData rp formData =
     (case rp of
        None \<Rightarrow> formData
      | Some recipe \<Rightarrow>
          \<lparr>title = title recipe,
           ingredients =
             (if length (ingredients recipe) > 0 then ingredients recipe else [[]]),
           instructions = instructions recipe,
           difficulty = difficulty recipe,
           cuisine = cuisine recipe,
           prep_time = prep_time recipe,
           cook_time = cook_time recipe,
           servings = servings recipe\<rparr>)"

text \<open>\<open>handleSubmit\<close>: the value handed to \<open>onSubmit\<close>.\<close>

definition handleSubmit :: "draft \<Rightarrow> draft" where
  "handleSubmit formData =
     formData\<lparr>ingredients :=
       filter (\<lambda>ingredient. trim ingredient \<noteq> []) (ingredients formData)\<rparr>"

definition addIngredient :: "draft \<Rightarrow> draft" where
  "addIngredient prev = prev\<lparr>ingredients := ingredients prev @ [[]]\<rparr>"

text \<open>
  \<open>filter((_, i) => i !== index)\<close> and \<open>map((ingredient, i) => ...)\<close> see each entry
  with its position; \<open>enumerate 0\<close> pairs them.
\<close>

definition removeIngredient :: "nat \<Rightarrow> draft \<Rightarrow> draft" where
  "removeIngredient index prev =
     prev\<lparr>ingredients :=
       map snd (filter (\<lambda>(i, _). i \<noteq> index) (enumerate 0 (ingredients prev)))\<rparr>"

definition updateIngredient :: "nat \<Rightarrow> jsstring \<Rightarrow> draft \<Rightarrow> draft" where
  "updateIngredient index v prev =
     prev\<lparr>ingredients :=
       map (\<lambda>(i, ingredient). if i = index then v else ingredient)
         (enumerate 0 (ingredients prev))\<rparr>"

text \<open>
  What the user can do in the form. The three number inputs store \<open>undefined\<close> for an
  empty text and \<open>parseInt\<close> of the text otherwise; the event carries the stored value.
\<close>

datatype form_event =
    ChangeTitle jsstring
  | ClickAddIngredient
  | ChangeIngredient nat jsstring
  | ClickRemoveIngredient nat
  | ChangeInstructions jsstring
  | ChangeDifficulty difficulty
  | ChangeCuisine cuisine
  | ChangeServings "int option"
  | ChangePrepTime "int option"
  | ChangeCookTime "int option"

text \<open>
  One event on the rendered form. There is one input per entry of \<open>ingredients\<close>, and
  the remove button of a row is rendered only when \<open>formData.ingredients.length > 1\<close>;
  an event on a control that is not on the page is \<open>None\<close>.
\<close>

fun form_step :: "form_event \<Rightarrow> draft \<Rightarrow> draft option" where
  "form_step (ChangeTitle v) prev = Some (prev\<lparr>title := v\<rparr>)"
| "form_step ClickAddIngredient prev = Some (addIngredient prev)"
| "form_step (ChangeIngredient index v) prev =
     (if index < length (ingredients prev) then Some (updateIngredient index v prev)
      else None)"
| "form_step (ClickRemoveIngredient index) prev =
     (if index < length (ingredients prev) \<and> length (ingredients prev) > 1
      then Some (removeIngredient index prev) else None)"
| "form_step (ChangeInstructions v) prev = Some (prev\<lparr>instructions := v\<rparr>)"
| "form_step (ChangeDifficulty v) prev = Some (prev\<lparr>difficulty := v\<rparr>)"
| "form_step (ChangeCuisine v) prev = Some (prev\<lparr>cuisine := v\<rparr>)"
| "form_step (ChangeServings v) prev = Some (prev\<lparr>servings := v\<rparr>)"
| "form_step (ChangePrepTime v) prev = Some (prev\<lparr>prep_time := v\<rparr>)"
| "form_step (ChangeCookTime v) prev = Some (prev\<lparr>cook_time := v\<rparr>)"

fun form_run :: "form_event list \<Rightarrow> draft \<Rightarrow> draft option" where
  "form_run [] d = Some d"
| "form_run (e # es) d =
     (case form_step e d of None \<Rightarrow> None | Some d' \<Rightarrow> form_run es d')"

fun touches_servings :: "form_event \<Rightarrow> bool" where
  "touches_servings (ChangeServings v) = True"
| "touches_servings e = False"

datatype submit_result = ValidationFailed | Dispatched draft

text \<open>
  A number input shows \<open>formData.servings || ''\<close>: the number, or nothing when the
  number is \<open>undefined\<close> or 0. A number shown that is below the \<open>min\<close> of its input
  makes the input invalid; an input that shows nothing is valid.
\<close>

definition rangeUnderflow :: "int \<Rightarrow> int option \<Rightarrow> bool" where
  "rangeUnderflow lo v = (case v of None \<Rightarrow> False | Some n \<Rightarrow> n \<noteq> 0 \<and> n < lo)"

text \<open>
  Modelled from the spec: the \<open>Input\<close> and \<open>Textarea\<close> components
  (\<open>components/ui\<close>, not among the sources) are taken to hand their properties to the
  native control, so that an invalid control blocks the submission at the form boundary
  and \<open>handleSubmit\<close> does not run. In the form the title and the instructions carry
  \<open>required\<close> and the ingredient inputs do not; the servings input has \<open>min="1"\<close>,
  the two time inputs have \<open>min="0"\<close>.
\<close>

definition submit :: "draft \<Rightarrow> submit_result" where
  "submit formData =
     (if title formData = [] \<or> instructions formData = [] \<or>
         rangeUnderflow 1 (servings formData) \<or> rangeUnderflow 0 (prep_time formData) \<or>
         rangeUnderflow 0 (cook_time formData)
      then ValidationFailed
      else Dispatched (handleSubmit formData))"

section \<open>The collection store\<close>

text \<open>
  A notification; \<open>title\<close>, \<open>description\<close>, \<open>variant\<close> of the source carry the
  prefix \<open>toast_\<close>, \<open>title\<close> being a field of the draft already.
\<close>

datatype variant = Destructive

record toast =
  toast_title :: string
  toast_description :: "string option"
  toast_variant :: "variant option"

text \<open>
  The calls to the remote store: the select of all recipes newest first, the update of
  the recipe with an id, the insert, the delete; update and insert carry the draft
  and the \<open>user_id\<close>.
\<close>

datatype request =
    Select_all
  | Update string draft string
  | Insert draft string
  | Delete string

text \<open>
  What an awaited call gives back: an object with \<open>data\<close> and \<open>error\<close>, either of
  which may be \<open>null\<close>, or an exception. An error has a \<open>message\<close>.
\<close>

datatype js_error = JsError (message: string)

datatype 'a reply = Resolved "'a option" "js_error option" | Rejected js_error

text \<open>\<open>if (error) throw error\<close> after the \<open>await\<close>: what reaches the \<open>catch\<close>.\<close>

fun thrown_by :: "'a reply \<Rightarrow> js_error option" where
  "thrown_by (Resolved d err) = err"
| "thrown_by (Rejected e) = Some e"

fun data_of :: "'a reply \<Rightarrow> 'a option" where
  "data_of (Resolved d err) = d"
| "data_of (Rejected e) = None"

text \<open>
  The dashboard in its surroundings: the user of \<open>useAuth\<close> (the id, \<open>None\<close> when
  nobody is signed in), the notifications shown so far, the calls made to the remote
  store so far, and the route \<open>navigate\<close> was last given.
\<close>

record session = dashboard +
  user :: "string option"
  toasts :: "toast list"
  requests :: "request list"
  navigated :: "string option"

definition initial_session :: "string option \<Rightarrow> session" where
  "initial_session u =
     \<lparr>recipes = [], loading = True, showForm = False, editingRecipe = None,
      searchTerm = [], cuisineFilter = ''all'', difficultyFilter = ''all'',
      deleteDialogOpen = False, recipeToDelete = None,
      user = u, toasts = [], requests = [], navigated = None\<rparr>"

definition toast :: "toast \<Rightarrow> session \<Rightarrow> session" where
  "toast t s = s\<lparr>toasts := toasts s @ [t]\<rparr>"

definition send :: "request \<Rightarrow> session \<Rightarrow> session" where
  "send q s = s\<lparr>requests := requests s @ [q]\<rparr>"

text \<open>
  \<open>user!.id\<close> with no user raises a \<open>TypeError\<close>, inside the \<open>try\<close>; the wording of
  its message is the engine's, here that of V8 (the character 0x27 is the apostrophe).
\<close>

definition null_user_error :: js_error where
  "null_user_error =
     JsError (''Cannot read properties of null (reading '' @ [CHR 0x27] @ ''id'' @
              [CHR 0x27] @ '')'')"

text \<open>
  \<open>fetchRecipes\<close> in two parts: up to the \<open>await\<close>, where the select is sent and
  nothing else happens, and from the reply on. \<open>data_or_empty\<close> is \<open>data || []\<close>.
\<close>

definition fetchRecipes_request :: "session \<Rightarrow> session" where
  "fetchRecipes_request s = send Select_all s"

definition data_or_empty :: "'a list reply \<Rightarrow> 'a list" where
  "data_or_empty freply = (case data_of freply of None \<Rightarrow> [] | Some d \<Rightarrow> d)"

definition fetchRecipes_resume :: "recipe list reply \<Rightarrow> session \<Rightarrow> session" where
  "fetchRecipes_resume freply s =
     (case thrown_by freply of
        None \<Rightarrow> s\<lparr>recipes := data_or_empty freply\<rparr>
      | Some err \<Rightarrow>
          toast \<lparr>toast_title = ''Error fetching recipes'',
                 toast_description = Some (message err),
                 toast_variant = Some Destructive\<rparr> s)
     \<lparr>loading := False\<rparr>"

definition fetchRecipes :: "recipe list reply \<Rightarrow> session \<Rightarrow> session" where
  "fetchRecipes freply s = fetchRecipes_resume freply (fetchRecipes_request s)"

text \<open>
  A handler that ends by calling \<open>fetchRecipes()\<close> does not await it: the handler is
  over while the select is still on its way. \<open>Awaiting_load\<close> is the state then,
  \<open>Finished\<close> the state of a handler that started no load.
\<close>

datatype 'a progress = Finished 'a | Awaiting_load 'a

fun state_of :: "'a progress \<Rightarrow> 'a" where
  "state_of (Finished s) = s"
| "state_of (Awaiting_load s) = s"

fun awaiting_load :: "'a progress \<Rightarrow> bool" where
  "awaiting_load (Finished s) = False"
| "awaiting_load (Awaiting_load s) = True"

fun settle :: "recipe list reply \<Rightarrow> session progress \<Rightarrow> session" where
  "settle freply (Finished s) = s"
| "settle freply (Awaiting_load s) = fetchRecipes_resume freply s"

text \<open>The effect hook of the dashboard.\<close>

definition mount_sync :: "session \<Rightarrow> session progress" where
  "mount_sync s =
     (case user s of
        None \<Rightarrow> Finished (s\<lparr>navigated := Some ''/auth''\<rparr>)
      | Some u \<Rightarrow> Awaiting_load (fetchRecipes_request s))"

definition mount :: "recipe list reply \<Rightarrow> session \<Rightarrow> session" where
  "mount freply s = settle freply (mount_sync s)"

text \<open>
  \<open>handleSaveRecipe\<close>, given the reply to the update or insert: \<open>save_failed\<close> is its
  \<open>catch\<close>, \<open>save_succeeded\<close> the end of its \<open>try\<close>.
\<close>

definition save_failed :: "session \<Rightarrow> js_error \<Rightarrow> session \<Rightarrow> session" where
  "save_failed s0 err s =
     toast \<lparr>toast_title =
              (if editingRecipe s0 \<noteq> None then ''Error updating recipe''
               else ''Error creating recipe''),
            toast_description = Some (message err),
            toast_variant = Some Destructive\<rparr> s"

definition save_succeeded :: "session \<Rightarrow> session" where
  "save_succeeded s = fetchRecipes_request (s\<lparr>showForm := False, editingRecipe := None\<rparr>)"

definition handleSaveRecipe_sync :: "draft \<Rightarrow> unit reply \<Rightarrow> session \<Rightarrow> session progress" where
  "handleSaveRecipe_sync recipeData mreply s =
     (case editingRecipe s of
        Some er \<Rightarrow>
          (case user s of
             None \<Rightarrow> Finished (save_failed s null_user_error s)
           | Some u \<Rightarrow>
               (let s1 = send (Update (id_recipe er) recipeData u) s
                in case thrown_by mreply of
                     Some err \<Rightarrow> Finished (save_failed s err s1)
                   | None \<Rightarrow>
                       Awaiting_load (save_succeeded
                         (toast \<lparr>toast_title = ''Recipe updated successfully'',
                                 toast_description = None,
                                 toast_variant = None\<rparr> s1))))
      | None \<Rightarrow>
          (case user s of
             None \<Rightarrow> Finished (save_failed s null_user_error s)
           | Some u \<Rightarrow>
               (let s1 = send (Insert recipeData u) s
                in case thrown_by mreply of
                     Some err \<Rightarrow> Finished (save_failed s err s1)
                   | None \<Rightarrow>
                       Awaiting_load (save_succeeded
                         (toast \<lparr>toast_title = ''Recipe created successfully'',
                                 toast_description = None,
                                 toast_variant = None\<rparr> s1)))))"

definition handleSaveRecipe ::
    "draft \<Rightarrow> unit reply \<Rightarrow> recipe list reply \<Rightarrow> session \<Rightarrow> session" where
  "handleSaveRecipe recipeData mreply freply s =
     settle freply (handleSaveRecipe_sync recipeData mreply s)"

text \<open>
  \<open>handleDeleteRecipe\<close>. \<open>!recipeToDelete\<close> holds for \<open>null\<close> and for the empty
  string. The \<open>finally\<close> block runs when the \<open>try\<close> or the \<open>catch\<close> is over, which on
  success is right after \<open>fetchRecipes()\<close> has sent its select.
\<close>

definition delete_finally :: "session \<Rightarrow> session" where
  "delete_finally s = s\<lparr>deleteDialogOpen := False, recipeToDelete := None\<rparr>"

definition handleDeleteRecipe_sync :: "unit reply \<Rightarrow> session \<Rightarrow> session progress" where
  "handleDeleteRecipe_sync mreply s =
     (case recipeToDelete s of
        None \<Rightarrow> Finished s
      | Some i \<Rightarrow>
          if i = '''' then Finished s
          else
            (let s1 = send (Delete i) s
             in case thrown_by mreply of
                  Some err \<Rightarrow>
                    Finished (delete_finally
                      (toast \<lparr>toast_title = ''Error deleting recipe'',
                              toast_description = Some (message err),
                              toast_variant = Some Destructive\<rparr> s1))
                | None \<Rightarrow>
                    Awaiting_load (delete_finally (fetchRecipes_request
                      (toast \<lparr>toast_title = ''Recipe deleted successfully'',
                              toast_description = None,
                              toast_variant = None\<rparr> s1)))))"

definition handleDeleteRecipe :: "unit reply \<Rightarrow> recipe list reply \<Rightarrow> session \<Rightarrow> session" where
  "handleDeleteRecipe mreply freply s = settle freply (handleDeleteRecipe_sync mreply s)"

text \<open>
  The events of the dashboard, each with the replies of the remote store it will get.
  The alert dialog (\<open>components/ui\<close>, not among the sources) has two handlers from
  the dashboard: \<open>onOpenChange\<close>, which is \<open>setDeleteDialogOpen\<close>, and the
  \<open>onClick\<close> of its action button, which is \<open>handleDeleteRecipe\<close>. Its Cancel
  button closes the dialog through \<open>onOpenChange(false)\<close>; its action button runs its
  \<open>onClick\<close> and closes the dialog in the same way.
\<close>

datatype dashboard_event =
    Mount "recipe list reply"
  | ChangeSearchTerm jsstring
  | ChangeCuisineFilter string
  | ChangeDifficultyFilter string
  | ClickAddRecipe
  | OnEdit recipe
  | OnDelete string
  | OnOpenChange bool
  | ClickDialogAction "unit reply" "recipe list reply"
  | OnSubmit draft "unit reply" "recipe list reply"
  | OnCancel

text \<open>What the handler behind an event does to the session.\<close>

fun dashboard_step :: "dashboard_event \<Rightarrow> session \<Rightarrow> session" where
  "dashboard_step (Mount freply) s = mount freply s"
| "dashboard_step (ChangeSearchTerm v) s = s\<lparr>searchTerm := v\<rparr>"
| "dashboard_step (ChangeCuisineFilter v) s = s\<lparr>cuisineFilter := v\<rparr>"
| "dashboard_step (ChangeDifficultyFilter v) s = s\<lparr>difficultyFilter := v\<rparr>"
| "dashboard_step ClickAddRecipe s = s\<lparr>showForm := True\<rparr>"
| "dashboard_step (OnEdit r) s = s\<lparr>editingRecipe := Some r, showForm := True\<rparr>"
| "dashboard_step (OnDelete i) s = s\<lparr>recipeToDelete := Some i, deleteDialogOpen := True\<rparr>"
| "dashboard_step (OnOpenChange b) s = s\<lparr>deleteDialogOpen := b\<rparr>"
| "dashboard_step (ClickDialogAction mreply freply) s =
     (handleDeleteRecipe mreply freply s)\<lparr>deleteDialogOpen := False\<rparr>"
| "dashboard_step (OnSubmit recipeData mreply freply) s =
     handleSaveRecipe recipeData mreply freply s"
| "dashboard_step OnCancel s = s\<lparr>showForm := False, editingRecipe := None\<rparr>"

fun dashboard_run :: "dashboard_event list \<Rightarrow> session \<Rightarrow> session" where
  "dashboard_run [] s = s"
| "dashboard_run (e # es) s = dashboard_run es (dashboard_step e s)"

text \<open>The reply to a select that an event carries.\<close>

fun load_reply :: "dashboard_event \<Rightarrow> recipe list reply option" where
  "load_reply (Mount freply) = Some freply"
| "load_reply (ClickDialogAction mreply freply) = Some freply"
| "load_reply (OnSubmit recipeData mreply freply) = Some freply"
| "load_reply e = None"

text \<open>
  Which events the page offers. With \<open>showForm\<close> the component returns the form and
  nothing else. Without it, it returns the header, the search box, the two select boxes
  and the add button; the cards of the visible recipes, with their edit and delete
  buttons, unless \<open>loading\<close> holds; and the alert dialog, whose buttons are there
  when it is open. The effect hook can run at any time, and the form may hand over any
  draft.
\<close>

fun rendered :: "case_mapping \<Rightarrow> dashboard_event \<Rightarrow> session \<Rightarrow> bool" where
  "rendered m (Mount freply) s = True"
| "rendered m (ChangeSearchTerm v) s = (\<not> showForm s)"
| "rendered m (ChangeCuisineFilter v) s = (\<not> showForm s)"
| "rendered m (ChangeDifficultyFilter v) s = (\<not> showForm s)"
| "rendered m ClickAddRecipe s = (\<not> showForm s)"
| "rendered m (OnEdit r) s =
     (\<not> showForm s \<and> \<not> loading s \<and> r \<in> set (filteredRecipes m s))"
| "rendered m (OnDelete i) s =
     (\<not> showForm s \<and> \<not> loading s \<and> i \<in> set (map id_recipe (filteredRecipes m s)))"
| "rendered m (OnOpenChange b) s = (\<not> showForm s \<and> deleteDialogOpen s)"
| "rendered m (ClickDialogAction mreply freply) s = (\<not> showForm s \<and> deleteDialogOpen s)"
| "rendered m (OnSubmit recipeData mreply freply) s = showForm s"
| "rendered m OnCancel s = showForm s"

text \<open>
  An event on the page as it is rendered; an event on a control that is not on the
  page is \<open>None\<close>.
\<close>

definition ui_step :: "case_mapping \<Rightarrow> dashboard_event \<Rightarrow> session \<Rightarrow> session option" where
  "ui_step m e s = (if rendered m e s then Some (dashboard_step e s) else None)"

fun ui_run :: "case_mapping \<Rightarrow> dashboard_event list \<Rightarrow> session \<Rightarrow> session option" where
  "ui_run m [] s = Some s"
| "ui_run m (e # es) s =
     (case ui_step m e s of None \<Rightarrow> None | Some s' \<Rightarrow> ui_run m es s')"

text \<open>The requests an event adds to the log of calls.\<close>

definition sent_by :: "dashboard_event \<Rightarrow> session \<Rightarrow> request list" where
  "sent_by e s = drop (length (requests s)) (requests (dashboard_step e s))"

text \<open>
  The events that leave the delete dialog alone: every event but a delete button, the
  action button and the closing of the dialog.
\<close>

fun quiet :: "dashboard_event \<Rightarrow> bool" where
  "quiet (OnDelete i) = False"
| "quiet (ClickDialogAction mreply freply) = False"
| "quiet (OnOpenChange b) = b"
| "quiet e = True"

section \<open>Example data\<close>

text \<open>The recipes and sessions of the specification's scenarios.\<close>

definition pasta_bake :: recipe where
  "pasta_bake =
     \<lparr>title = js ''Pasta Bake'', ingredients = [js ''Penne'', js ''Cheese''],
      instructions = js ''Bake'', difficulty = Easy, cuisine = Italian,
      prep_time = Some 10, cook_time = Some 30, servings = Some 2,
      id_recipe = ''r0'', created_at = ''2024-03-01''\<rparr>"

definition tacos :: recipe where
  "tacos =
     \<lparr>title = js ''Tacos'', ingredients = [js ''Tortilla'', js ''Beans''],
      instructions = js ''Fold'', difficulty = Easy, cuisine = Mexican,
      prep_time = None, cook_time = None, servings = None,
      id_recipe = ''r1'', created_at = ''2024-02-01''\<rparr>"

definition ramen :: recipe where
  "ramen =
     \<lparr>title = js ''Ramen'', ingredients = [js ''Noodles'', js ''Broth''],
      instructions = js ''Simmer'', difficulty = Medium, cuisine = Asian,
      prep_time = None, cook_time = Some 45, servings = Some 1,
      id_recipe = ''r2'', created_at = ''2024-01-01''\<rparr>"

definition loaded_session :: session where
  "loaded_session =
     mount (Resolved (Some [pasta_bake, tacos, ramen]) None) (initial_session (Some ''u1''))"

text \<open>
  A recipe with a Greek title, the word for lobster in capitals: alpha, sigma, tau,
  alpha, kappa, omicron, sigma. Its first two letters are the search text below.
\<close>

definition astakos :: recipe where
  "astakos =
     \<lparr>title = [0x391, 0x3A3, 0x3A4, 0x391, 0x39A, 0x39F, 0x3A3],
      ingredients = [js ''Lobster''], instructions = js ''Grill'',
      difficulty = Hard, cuisine = Mediterranean,
      prep_time = None, cook_time = None, servings = Some 2,
      id_recipe = ''r3'', created_at = ''2024-04-01''\<rparr>"

definition alpha_sigma :: jsstring where
  "alpha_sigma = [0x391, 0x3A3]"

section \<open>Facts about the string functions\<close>

lemma includes_iff_sublist: "includes_str s t \<longleftrightarrow> sublist t s"
  by (induction s) (auto simp: sublist_Cons_right)

lemma includes_empty: "includes_str s []"
  by (simp add: includes_iff_sublist)

lemma toLowerCase_Nil: "toLowerCase m [] = []"
  by (simp add: toLowerCase_def CodePointsToString_def)

lemma matchesSearch_iff_spec: "matchesSearch m txt r \<longleftrightarrow> spec_matches_text m txt r"
  by (simp add: matchesSearch_def spec_matches_text_def lowered_contains_def
      includes_iff_sublist sublist_def list_ex_iff)

lemma matchesSearch_empty: "matchesSearch m [] r"
  by (simp add: matchesSearch_def toLowerCase_Nil includes_empty)

lemma filteredRecipes_neutral:
  "searchTerm s = [] \<Longrightarrow> cuisineFilter s = ''all'' \<Longrightarrow> difficultyFilter s = ''all'' \<Longrightarrow>
   filteredRecipes m s = recipes s"
  by (simp add: filteredRecipes_def matchesSearch_empty matchesCuisine_def
      matchesDifficulty_def)

text \<open>The equations that evaluate a lower-casing with the excerpt.\<close>

lemmas lower_eval =
  toLowerCase_def js_def is_lead_def is_trail_def unicode_excerpt_def Final_Sigma_def
  cased_excerpt_def case_ignorable_excerpt_def CodePointsToString_def UTF16EncodeCodePoint_def

text \<open>
  The lobster title, the search text, a capital I with dot above before \<open>S\<close>, and
  \<open>PASTA\<close>, lower-cased.
\<close>

lemma lower_examples:
  "toLowerCase unicode_excerpt [0x391, 0x3A3, 0x3A4, 0x391, 0x39A, 0x39F, 0x3A3] =
     [0x3B1, 0x3C3, 0x3C4, 0x3B1, 0x3BA, 0x3BF, 0x3C2]"
  "toLowerCase unicode_excerpt [0x391, 0x3A3] = [0x3B1, 0x3C2]"
  "toLowerCase unicode_excerpt [0x130, 0x53] = [0x69, 0x307, 0x73]"
  "toLowerCase unicode_excerpt (js ''PASTA'') = js ''pasta''"
  by (simp_all add: lower_eval)

text \<open>
  Lower-casing ASCII text with a mapping that is faithful there, and containment up to
  case.
\<close>

lemma decode_ascii: "is_ascii s \<Longrightarrow> StringToCodePoints s = map unat s"
proof (induction s rule: StringToCodePoints.induct)
  case 1
  then show ?case by simp
next
  case (2 u)
  then show ?case by simp
next
  case (3 u v s)
  from "3.prems" have "u < 0x80" by (simp add: is_ascii_def)
  then have "\<not> is_lead u" by (simp add: is_lead_def word_less_nat_alt word_le_nat_alt)
  with 3 show ?case by (simp add: is_ascii_def)
qed

lemma lower_ascii_points:
  "ascii_faithful m \<Longrightarrow> list_all (\<lambda>c. c < 0x80) cps \<Longrightarrow>
   toLowercase m before cps = map (\<lambda>c. if 0x41 \<le> c \<and> c \<le> 0x5A then c + 32 else c) cps"
  by (induction cps arbitrary: before) (simp_all add: ascii_faithful_def)

lemma encode_bmp:
  "list_all (\<lambda>c. c \<le> 0xFFFF) cps \<Longrightarrow> CodePointsToString cps = map of_nat cps"
  by (induction cps) (simp_all add: CodePointsToString_def UTF16EncodeCodePoint_def)

lemma unat_ascii: "u < 0x80 \<Longrightarrow> unat u < 0x80" for u :: code_unit
  by (simp add: word_less_nat_alt)

lemma lower_unit:
  "of_nat (if 0x41 \<le> unat u \<and> unat u \<le> 0x5A then unat u + 32 else unat u) = ascii_lower u"
  for u :: code_unit
  by (simp add: ascii_lower_def word_le_nat_alt)

lemma toLowerCase_ascii:
  assumes "ascii_faithful m" and "is_ascii s"
  shows "toLowerCase m s = map ascii_lower s"
proof -
  from assms(2) have small: "list_all (\<lambda>c. c < 0x80) (map unat s)"
    by (simp add: is_ascii_def list_all_iff unat_ascii)
  let ?f = "\<lambda>c::nat. if 0x41 \<le> c \<and> c \<le> 0x5A then c + 32 else c"
  from small have "list_all (\<lambda>c. c \<le> 0xFFFF) (map ?f (map unat s))"
    by (auto simp: list_all_iff)
  then have "CodePointsToString (map ?f (map unat s)) = map of_nat (map ?f (map unat s))"
    by (rule encode_bmp)
  also have "\<dots> = map ascii_lower s"
    using lower_unit by (simp add: comp_def)
  finally show ?thesis
    using assms small
    by (simp add: toLowerCase_def decode_ascii lower_ascii_points)
qed

lemma ascii_lower_eq_iff:
  "u < 0x80 \<Longrightarrow> v < 0x80 \<Longrightarrow> ascii_lower u = ascii_lower v \<longleftrightarrow> same_letter u v"
  unfolding ascii_lower_def same_letter_def
  by (auto simp: word_less_nat_alt word_le_nat_alt) unat_arith+


lemma same_letter_maps:
  assumes "is_ascii u" and "is_ascii t"
  shows "map ascii_lower u = map ascii_lower t \<longleftrightarrow> list_all2 same_letter u t"
proof -
  have "map ascii_lower u = map ascii_lower t \<longleftrightarrow>
      list_all2 (=) (map ascii_lower u) (map ascii_lower t)"
    by (simp add: list.rel_eq)
  also have "\<dots> \<longleftrightarrow> list_all2 (\<lambda>a b. ascii_lower a = ascii_lower b) u t"
    by (simp add: list.rel_map)
  also have "\<dots> \<longleftrightarrow> list_all2 same_letter u t"
  proof (rule list.rel_cong)
    fix a b
    assume "a \<in> set u" and "b \<in> set t"
    with assms have "a < 0x80" and "b < 0x80"
      by (auto simp: is_ascii_def list_all_iff)
    then show "(ascii_lower a = ascii_lower b) = same_letter a b"
      by (rule ascii_lower_eq_iff)
  qed simp_all
  finally show ?thesis .
qed

lemma is_ascii_append [simp]: "is_ascii (xs @ ys) \<longleftrightarrow> is_ascii xs \<and> is_ascii ys"
  by (simp add: is_ascii_def)

lemma lowered_contains_ascii:
  assumes m: "ascii_faithful m" and s: "is_ascii s" and t: "is_ascii t"
  shows "lowered_contains m s t \<longleftrightarrow> contains_ignoring_case s t"
proof
  assume "lowered_contains m s t"
  with m s t obtain ps' ss' where
    "map ascii_lower s = ps' @ map ascii_lower t @ ss'"
    by (auto simp: lowered_contains_def toLowerCase_ascii)
  then obtain ps r where s1: "s = ps @ r"
      and r: "map ascii_lower t @ ss' = map ascii_lower r"
    using map_eq_append_conv [of ascii_lower s ps' "map ascii_lower t @ ss'"]
    by blast
  from r obtain u ss where r1: "r = u @ ss"
      and eq: "map ascii_lower u = map ascii_lower t"
    using append_eq_map_conv [of "map ascii_lower t" ss' ascii_lower r]
    by auto
  from s s1 r1 have "is_ascii u" by simp
  with eq t have "list_all2 same_letter u t"
    by (simp add: same_letter_maps)
  with s1 r1 show "contains_ignoring_case s t"
    by (auto simp: contains_ignoring_case_def)
next
  assume "contains_ignoring_case s t"
  then obtain ps u ss where s1: "s = ps @ u @ ss" and l: "list_all2 same_letter u t"
    by (auto simp: contains_ignoring_case_def)
  from s s1 have "is_ascii u" by simp
  with l t have "map ascii_lower u = map ascii_lower t"
    by (simp add: same_letter_maps)
  with s1 have "map ascii_lower s = map ascii_lower ps @ map ascii_lower t @ map ascii_lower ss"
    by simp
  with m s t show "lowered_contains m s t"
    by (auto simp: lowered_contains_def toLowerCase_ascii)
qed

lemma ascii_faithful_excerpt: "ascii_faithful unicode_excerpt"
  by (simp add: ascii_faithful_def unicode_excerpt_def)

lemma trim_empty_iff: "trim s = [] \<longleftrightarrow> (\<forall>c \<in> set s. isWhiteSpace c)"
proof -
  let ?d = "dropWhile isWhiteSpace s"
  have "(\<forall>x \<in> set ?d. isWhiteSpace x) \<longleftrightarrow> (\<forall>c \<in> set s. isWhiteSpace c)"
  proof
    assume all: "\<forall>x \<in> set ?d. isWhiteSpace x"
    have "?d = []"
    proof (rule ccontr)
      assume ne: "?d \<noteq> []"
      then have "\<not> isWhiteSpace (hd ?d)" by (rule hd_dropWhile)
      moreover from ne have "hd ?d \<in> set ?d" by (rule hd_in_set)
      ultimately show False using all by blast
    qed
    then show "\<forall>c \<in> set s. isWhiteSpace c" by (simp add: dropWhile_eq_Nil_conv)
  next
    assume "\<forall>c \<in> set s. isWhiteSpace c"
    then show "\<forall>x \<in> set ?d. isWhiteSpace x" by (auto dest: set_dropWhileD)
  qed
  then show ?thesis
    by (simp add: trim_def)
qed

section \<open>Facts about the examples\<close>

lemma loaded_session_eq:
  "loaded_session =
     \<lparr>recipes = [pasta_bake, tacos, ramen], loading = False, showForm = False,
      editingRecipe = None, searchTerm = [], cuisineFilter = ''all'',
      difficultyFilter = ''all'', deleteDialogOpen = False, recipeToDelete = None,
      user = Some ''u1'', toasts = [], requests = [Select_all], navigated = None\<rparr>"
  by (simp add: loaded_session_def initial_session_def mount_def mount_sync_def
      fetchRecipes_request_def fetchRecipes_resume_def send_def data_or_empty_def)

section \<open>Facts about the form\<close>

text \<open>Dropping the entry at a position, and replacing it, over the numbered list.\<close>

lemma enumerate_drop_index:
  "map snd (filter (\<lambda>(i, _). i \<noteq> k) (enumerate n xs)) =
     (if n \<le> k then take (k - n) xs @ drop (Suc (k - n)) xs else xs)"
proof (induction xs arbitrary: n)
  case Nil
  then show ?case by simp
next
  case (Cons x xs)
  show ?case
  proof (cases "n = k")
    case True
    then show ?thesis using Cons [of "Suc n"] by simp
  next
    case False
    show ?thesis
    proof (cases "n < k")
      case True
      then have "k - n = Suc (k - Suc n)" by arith
      with True show ?thesis using Cons [of "Suc n"] by simp
    next
      case False
      with \<open>n \<noteq> k\<close> show ?thesis using Cons [of "Suc n"] by simp
    qed
  qed
qed

lemma removeIngredient_ingredients:
  "ingredients (removeIngredient index d) =
     take index (ingredients d) @ drop (Suc index) (ingredients d)"
  by (simp add: removeIngredient_def enumerate_drop_index)

lemma enumerate_set_index:
  "map (\<lambda>(i, y). if i = k then v else y) (enumerate n xs) =
     (if n \<le> k \<and> k < n + length xs then xs[k - n := v] else xs)"
proof (induction xs arbitrary: n)
  case Nil
  then show ?case by simp
next
  case (Cons x xs)
  show ?case
  proof (cases "n = k")
    case True
    then show ?thesis using Cons [of "Suc n"] by simp
  next
    case False
    show ?thesis
    proof (cases "n < k")
      case True
      then have "k - n = Suc (k - Suc n)" by arith
      with True show ?thesis using Cons [of "Suc n"] by auto
    next
      case False
      with \<open>n \<noteq> k\<close> show ?thesis using Cons [of "Suc n"] by simp
    qed
  qed
qed

lemma updateIngredient_ingredients:
  "ingredients (updateIngredient index v d) = (ingredients d)[index := v]"
  by (simp add: updateIngredient_def enumerate_set_index list_update_beyond)

lemma form_step_nonempty:
  "form_step e d = Some d' \<Longrightarrow> ingredients d \<noteq> [] \<Longrightarrow> ingredients d' \<noteq> []"
  by (cases e)
     (auto simp: addIngredient_def removeIngredient_ingredients updateIngredient_ingredients
           split: if_splits)

lemma form_run_nonempty:
  "form_run es d = Some d' \<Longrightarrow> ingredients d \<noteq> [] \<Longrightarrow> ingredients d' \<noteq> []"
proof (induction es arbitrary: d)
  case Nil
  then show ?case by simp
next
  case (Cons e es)
  then show ?case
    by (auto split: option.splits dest: form_step_nonempty)
qed

lemma form_step_servings:
  "form_step e d = Some d' \<Longrightarrow> \<not> touches_servings e \<Longrightarrow> servings d' = servings d"
  by (cases e)
     (auto simp: addIngredient_def removeIngredient_def updateIngredient_def split: if_splits)

lemma form_run_servings:
  "form_run es d = Some d' \<Longrightarrow> list_all (\<lambda>e. \<not> touches_servings e) es \<Longrightarrow>
   servings d' = servings d"
proof (induction es arbitrary: d)
  case Nil
  then show ?case by simp
next
  case (Cons e es)
  then show ?case
    by (auto split: option.splits dest: form_step_servings)
qed

section \<open>The filter\<close>

text \<open>
  Claim C1 as stated, that a recipe matches the text whenever its title contains the
  text up to case, fails. The title of the lobster recipe begins with the two letters
  of the search text, capital alpha and capital sigma, so it contains the text as it
  is. Lower-casing turns the sigma at the end of the search text into a final sigma and
  the same sigma inside the title into a plain one, so the lower-cased title does not
  contain the lower-cased text, and the filter drops the recipe.
\<close>

theorem final_sigma_hides_title:
  "includes_str (title astakos) alpha_sigma \<and>
   filteredRecipes unicode_excerpt
     (loaded_session\<lparr>recipes := [astakos], searchTerm := alpha_sigma\<rparr>) = []"
proof
  show "includes_str (title astakos) alpha_sigma"
    by (simp add: astakos_def alpha_sigma_def)
  have "\<not> matchesSearch unicode_excerpt alpha_sigma astakos"
    by (simp add: matchesSearch_def astakos_def alpha_sigma_def lower_eval)
  then show "filteredRecipes unicode_excerpt
     (loaded_session\<lparr>recipes := [astakos], searchTerm := alpha_sigma\<rparr>) = []"
    by (simp add: filteredRecipes_def)
qed

text \<open>
  Claim C1, amended. For every collection, every query (search text, cuisine filter,
  difficulty filter) and whatever the lower-case mapping of the engine is, the filter
  returns exactly the recipes of the collection, in their order, that match all three
  criteria: the lower-cased title contains the lower-cased text as a contiguous piece,
  or some lower-cased ingredient does; the cuisine filter is \<open>all\<close> or the recipe's
  cuisine; the difficulty filter is \<open>all\<close> or the recipe's difficulty. The empty text
  matches every recipe. When the text, the title and the ingredients are ASCII, and the
  mapping is faithful there, a recipe matches the text exactly when its title or one of
  its ingredients contains the text up to the case of the letters \<open>A\<close> to \<open>Z\<close>.
\<close>

theorem filteredRecipes_exact:
  "filteredRecipes m s =
     filter (\<lambda>r. spec_matches_text m (searchTerm s) r \<and>
                 spec_matches_cuisine (cuisineFilter s) r \<and>
                 spec_matches_difficulty (difficultyFilter s) r) (recipes s) \<and>
   spec_matches_text m [] r \<and>
   (ascii_faithful m \<and> is_ascii txt \<and> is_ascii (title r) \<and> list_all is_ascii (ingredients r)
      \<longrightarrow> spec_matches_text m txt r =
           (contains_ignoring_case (title r) txt \<or>
            (\<exists>i \<in> set (ingredients r). contains_ignoring_case i txt)))"
proof (intro conjI)
  have "matchesCuisine f x = spec_matches_cuisine f x" for f x
    by (auto simp: matchesCuisine_def spec_matches_cuisine_def)
  moreover have "matchesDifficulty f x = spec_matches_difficulty f x" for f x
    by (auto simp: matchesDifficulty_def spec_matches_difficulty_def)
  ultimately show "filteredRecipes m s =
     filter (\<lambda>r. spec_matches_text m (searchTerm s) r \<and>
                 spec_matches_cuisine (cuisineFilter s) r \<and>
                 spec_matches_difficulty (difficultyFilter s) r) (recipes s)"
    by (simp add: filteredRecipes_def matchesSearch_iff_spec)
  show "spec_matches_text m [] r"
    using matchesSearch_empty [of m r] by (simp add: matchesSearch_iff_spec)
  show "ascii_faithful m \<and> is_ascii txt \<and> is_ascii (title r) \<and>
      list_all is_ascii (ingredients r)
      \<longrightarrow> spec_matches_text m txt r =
           (contains_ignoring_case (title r) txt \<or>
            (\<exists>i \<in> set (ingredients r). contains_ignoring_case i txt))"
    by (auto simp: spec_matches_text_def lowered_contains_ascii list_all_iff)
qed

text \<open>
  The search for \<open>PASTA\<close> among the three example recipes: the code returns the pasta
  bake, so the criteria select it and nothing else; all is ASCII there, so the pasta
  bake contains \<open>PASTA\<close> up to case.
\<close>

theorem filteredRecipes_exact_witness:
  "filter (\<lambda>r. spec_matches_text unicode_excerpt (js ''PASTA'') r \<and>
               spec_matches_cuisine ''all'' r \<and> spec_matches_difficulty ''all'' r)
     [pasta_bake, tacos, ramen] = [pasta_bake] \<and>
   ascii_faithful unicode_excerpt \<and> is_ascii (js ''PASTA'') \<and> is_ascii (title pasta_bake) \<and>
   list_all is_ascii (ingredients pasta_bake) \<and>
   (contains_ignoring_case (title pasta_bake) (js ''PASTA'') \<or>
    (\<exists>i \<in> set (ingredients pasta_bake). contains_ignoring_case i (js ''PASTA'')))"
proof -
  have pasta: "matchesSearch unicode_excerpt (js ''PASTA'') pasta_bake"
    by (simp add: matchesSearch_def pasta_bake_def lower_eval)
  have tacos: "\<not> matchesSearch unicode_excerpt (js ''PASTA'') tacos"
    by (simp add: matchesSearch_def tacos_def lower_eval)
  have ramen: "\<not> matchesSearch unicode_excerpt (js ''PASTA'') ramen"
    by (simp add: matchesSearch_def ramen_def lower_eval)
  have run: "filteredRecipes unicode_excerpt (loaded_session\<lparr>searchTerm := js ''PASTA''\<rparr>) =
      [pasta_bake]"
    using pasta tacos ramen
    by (simp add: filteredRecipes_def loaded_session_eq matchesCuisine_def
        matchesDifficulty_def)
  note inst = filteredRecipes_exact
      [of unicode_excerpt "loaded_session\<lparr>searchTerm := js ''PASTA''\<rparr>" pasta_bake
        "js ''PASTA''"]
  from run inst have first: "filter (\<lambda>r. spec_matches_text unicode_excerpt (js ''PASTA'') r \<and>
               spec_matches_cuisine ''all'' r \<and> spec_matches_difficulty ''all'' r)
     [pasta_bake, tacos, ramen] = [pasta_bake]"
    by (simp add: loaded_session_eq)
  have ascii: "is_ascii (js ''PASTA'')" "is_ascii (title pasta_bake)"
    "list_all is_ascii (ingredients pasta_bake)"
    by (simp_all add: is_ascii_def js_def pasta_bake_def)
  have faithful: "ascii_faithful unicode_excerpt"
    by (rule ascii_faithful_excerpt)
  from pasta have "spec_matches_text unicode_excerpt (js ''PASTA'') pasta_bake"
    by (simp add: matchesSearch_iff_spec)
  with inst ascii faithful
  have "contains_ignoring_case (title pasta_bake) (js ''PASTA'') \<or>
    (\<exists>i \<in> set (ingredients pasta_bake). contains_ignoring_case i (js ''PASTA''))"
    by blast
  with first ascii faithful show ?thesis
    by (intro conjI)
qed

text \<open>
  Claim C6. The visible recipes are a subsequence of the collection, in the collection's
  order, and with the neutral query (empty text, both filters \<open>all\<close>) they are the
  whole collection; this for every lower-case mapping.
\<close>

theorem filteredRecipes_subseq:
  "subseq (filteredRecipes m s) (recipes s) \<and>
   (searchTerm s = [] \<and> cuisineFilter s = ''all'' \<and> difficultyFilter s = ''all''
      \<longrightarrow> filteredRecipes m s = recipes s)"
  by (simp add: filteredRecipes_def matchesSearch_empty matchesCuisine_def
      matchesDifficulty_def)

theorem filteredRecipes_subseq_witness:
  "searchTerm loaded_session = [] \<and> cuisineFilter loaded_session = ''all'' \<and>
   difficultyFilter loaded_session = ''all'' \<and>
   filteredRecipes unicode_excerpt loaded_session = recipes loaded_session \<and>
   recipes loaded_session = [pasta_bake, tacos, ramen]"
  using filteredRecipes_subseq [of unicode_excerpt loaded_session]
  by (simp add: loaded_session_eq)

section \<open>The form\<close>

text \<open>
  Claim C2. The value \<open>handleSubmit\<close> hands on is the draft with its ingredients
  filtered and nothing else changed: the ingredients kept are, in their order and with
  their text as typed, those that are not empty after trimming. The ingredients
  \<open>Salt\<close>, the empty string, two spaces, \<open>Pepper\<close> become \<open>Salt\<close>, \<open>Pepper\<close>.
\<close>

theorem handleSubmit_normalizes:
  "handleSubmit d = d\<lparr>ingredients := filter (\<lambda>i. trim i \<noteq> []) (ingredients d)\<rparr> \<and>
   subseq (ingredients (handleSubmit d)) (ingredients d) \<and>
   (\<forall>i. i \<in> set (ingredients (handleSubmit d)) \<longleftrightarrow>
        i \<in> set (ingredients d) \<and> trim i \<noteq> []) \<and>
   ingredients (handleSubmit (d\<lparr>ingredients := [js ''Salt'', [], js ''  '', js ''Pepper'']\<rparr>)) =
     [js ''Salt'', js ''Pepper'']"
  apply (simp add: handleSubmit_def)
  apply (simp add: trim_def isWhiteSpace_def js_def)
  done

theorem handleSubmit_normalizes_witness:
  "handleSubmit (initial_formData\<lparr>title := js ''Stew'', ingredients := [js '' Leek'', js ''  '']\<rparr>) =
     initial_formData\<lparr>title := js ''Stew'', ingredients := [js '' Leek'']\<rparr>"
proof -
  have "filter (\<lambda>i. trim i \<noteq> []) [js '' Leek'', js ''  ''] = [js '' Leek'']"
    by (simp add: trim_def isWhiteSpace_def js_def)
  then show ?thesis
    using handleSubmit_normalizes
      [of "initial_formData\<lparr>title := js ''Stew'', ingredients := [js '' Leek'', js ''  '']\<rparr>"]
    by simp
qed

text \<open>
  Claim C7. With exactly one ingredient slot the remove button is not on the page, so
  the removal cannot happen; the draft starts with a slot, seeding keeps a slot, and
  whatever the user does in the form, a draft that has a slot keeps one.
\<close>

theorem ingredients_never_empty:
  "(length (ingredients d) = 1 \<longrightarrow> form_step (ClickRemoveIngredient index) d = None) \<and>
   ingredients initial_formData \<noteq> [] \<and>
   (ingredients d \<noteq> [] \<longrightarrow> ingredients (seedFormData rp d) \<noteq> []) \<and>
   (ingredients d \<noteq> [] \<and> form_run es d = Some d' \<longrightarrow> ingredients d' \<noteq> [])"
  using form_run_nonempty [of es d d']
  by (auto simp: initial_formData_def seedFormData_def split: option.splits)

theorem ingredients_never_empty_witness:
  "length (ingredients initial_formData) = 1 \<and>
   form_step (ClickRemoveIngredient 0) initial_formData = None \<and>
   form_run [ClickAddIngredient, ChangeIngredient 1 (js ''Salt''), ClickRemoveIngredient 0]
     initial_formData = Some (initial_formData\<lparr>ingredients := [js ''Salt'']\<rparr>) \<and>
   ingredients (initial_formData\<lparr>ingredients := [js ''Salt'']\<rparr>) \<noteq> [] \<and>
   ingredients (seedFormData (Some (tacos\<lparr>ingredients := []\<rparr>)) initial_formData) \<noteq> []"
proof -
  have one: "length (ingredients initial_formData) = 1"
    by (simp add: initial_formData_def)
  have run: "form_run [ClickAddIngredient, ChangeIngredient 1 (js ''Salt''), ClickRemoveIngredient 0]
     initial_formData = Some (initial_formData\<lparr>ingredients := [js ''Salt'']\<rparr>)"
    by (simp add: initial_formData_def addIngredient_def updateIngredient_def
        removeIngredient_def)
  have ne: "ingredients initial_formData \<noteq> []"
    by (simp add: initial_formData_def)
  show ?thesis
    using one run ne
      ingredients_never_empty [of initial_formData 0 "Some (tacos\<lparr>ingredients := []\<rparr>)"
        "[ClickAddIngredient, ChangeIngredient 1 (js ''Salt''), ClickRemoveIngredient 0]"
        "initial_formData\<lparr>ingredients := [js ''Salt'']\<rparr>"]
    by simp
qed

text \<open>
  Claim C10. A draft that is not seeded from a recipe starts with an empty title, empty
  instructions, one blank ingredient slot, difficulty medium, cuisine other, no
  preparation or cooking time, and 4 servings; if the user never touches the servings
  input, the draft that is submitted carries 4 servings.
\<close>

theorem new_draft_defaults:
  "title initial_formData = [] \<and> instructions initial_formData = [] \<and>
   ingredients initial_formData = [[]] \<and>
   difficulty initial_formData = Medium \<and> cuisine initial_formData = Other \<and>
   prep_time initial_formData = None \<and> cook_time initial_formData = None \<and>
   servings initial_formData = Some 4 \<and>
   seedFormData None initial_formData = initial_formData \<and>
   (form_run es initial_formData = Some d \<and> list_all (\<lambda>e. \<not> touches_servings e) es
      \<longrightarrow> servings (handleSubmit d) = Some 4)"
  using form_run_servings [of es initial_formData d]
  by (auto simp: initial_formData_def seedFormData_def handleSubmit_def)

theorem new_draft_defaults_witness:
  "form_run [ChangeTitle (js ''Toast''), ChangeIngredient 0 (js ''Bread''),
      ChangeInstructions (js ''Toast it'')]
     initial_formData =
     Some (initial_formData\<lparr>title := js ''Toast'', ingredients := [js ''Bread''],
            instructions := js ''Toast it''\<rparr>) \<and>
   servings (handleSubmit (initial_formData\<lparr>title := js ''Toast'', ingredients := [js ''Bread''],
            instructions := js ''Toast it''\<rparr>)) = Some 4"
proof -
  have run: "form_run
     [ChangeTitle (js ''Toast''), ChangeIngredient 0 (js ''Bread''),
      ChangeInstructions (js ''Toast it'')]
     initial_formData =
     Some (initial_formData\<lparr>title := js ''Toast'', ingredients := [js ''Bread''],
            instructions := js ''Toast it''\<rparr>)"
    by (simp add: initial_formData_def updateIngredient_def)
  show ?thesis
    using run
      new_draft_defaults
        [of "[ChangeTitle (js ''Toast''), ChangeIngredient 0 (js ''Bread''),
      ChangeInstructions (js ''Toast it'')]"
          "initial_formData\<lparr>title := js ''Toast'', ingredients := [js ''Bread''],
            instructions := js ''Toast it''\<rparr>"]
    by simp
qed


section \<open>Facts about the collection store\<close>

lemma toasts_toast [simp]: "toasts (toast t s) = toasts s @ [t]"
  and recipes_toast [simp]: "recipes (toast t s) = recipes s"
  and requests_toast [simp]: "requests (toast t s) = requests s"
  and loading_toast [simp]: "loading (toast t s) = loading s"
  by (simp_all add: toast_def)

lemma toasts_send [simp]: "toasts (send q s) = toasts s"
  and recipes_send [simp]: "recipes (send q s) = recipes s"
  and requests_send [simp]: "requests (send q s) = requests s @ [q]"
  and loading_send [simp]: "loading (send q s) = loading s"
  by (simp_all add: send_def)

lemma fetchRecipes_resume_failed:
  "thrown_by freply = Some err \<Longrightarrow>
   fetchRecipes_resume freply s =
     (toast \<lparr>toast_title = ''Error fetching recipes'', toast_description = Some (message err),
             toast_variant = Some Destructive\<rparr> s)\<lparr>loading := False\<rparr>"
  by (simp add: fetchRecipes_resume_def)

lemma recipes_fetchRecipes_resume:
  "recipes (fetchRecipes_resume freply s) =
     (case thrown_by freply of None \<Rightarrow> data_or_empty freply | Some err \<Rightarrow> recipes s)"
  by (simp add: fetchRecipes_resume_def split: option.splits)

lemma requests_fetchRecipes_resume [simp]:
  "requests (fetchRecipes_resume freply s) = requests s"
  by (simp add: fetchRecipes_resume_def split: option.splits)

lemma requests_settle [simp]: "requests (settle freply p) = requests (state_of p)"
  by (cases p) simp_all

text \<open>Up to the reply to the select, no handler touches the collection.\<close>

lemma recipes_state_of_save [simp]:
  "recipes (state_of (handleSaveRecipe_sync d mreply s)) = recipes s"
  by (simp add: handleSaveRecipe_sync_def save_failed_def save_succeeded_def
      fetchRecipes_request_def Let_def split: option.splits)

lemma recipes_state_of_delete [simp]:
  "recipes (state_of (handleDeleteRecipe_sync mreply s)) = recipes s"
  by (simp add: handleDeleteRecipe_sync_def delete_finally_def
      fetchRecipes_request_def Let_def split: option.splits)

lemma recipes_state_of_mount [simp]:
  "recipes (state_of (mount_sync s)) = recipes s"
  by (simp add: mount_sync_def fetchRecipes_request_def split: option.splits)

lemma recipes_settle:
  "recipes (settle freply p) = recipes (state_of p) \<or>
   (awaiting_load p \<and> thrown_by freply = None \<and>
    recipes (settle freply p) = data_or_empty freply)"
  by (cases p) (auto simp: recipes_fetchRecipes_resume split: option.splits)

lemma recipes_dashboard_step:
  "recipes (dashboard_step e s) = recipes s \<or>
   (\<exists>freply. load_reply e = Some freply \<and> thrown_by freply = None \<and>
      recipes (dashboard_step e s) = data_or_empty freply)"
proof (cases e)
  case (Mount f)
  then show ?thesis
    using recipes_settle [of f "mount_sync s"] by (auto simp: mount_def)
next
  case (ClickDialogAction m f)
  then show ?thesis
    using recipes_settle [of f "handleDeleteRecipe_sync m s"]
    by (auto simp: handleDeleteRecipe_def)
next
  case (OnSubmit d m f)
  then show ?thesis
    using recipes_settle [of f "handleSaveRecipe_sync d m s"]
    by (auto simp: handleSaveRecipe_def)
qed simp_all

text \<open>The loading flag, once false, stays false.\<close>

lemma loading_stays_false:
  "\<not> loading s \<Longrightarrow> \<not> loading (dashboard_step e s)"
proof (cases e)
  case (Mount f)
  assume "\<not> loading s"
  with Mount show ?thesis
    by (simp add: mount_def mount_sync_def fetchRecipes_resume_def split: option.splits)
next
  case (ClickDialogAction m f)
  assume "\<not> loading s"
  with ClickDialogAction show ?thesis
    by (simp add: handleDeleteRecipe_def handleDeleteRecipe_sync_def delete_finally_def
        fetchRecipes_request_def fetchRecipes_resume_def Let_def split: option.splits)
next
  case (OnSubmit d m f)
  assume "\<not> loading s"
  with OnSubmit show ?thesis
    by (simp add: handleSaveRecipe_def handleSaveRecipe_sync_def save_failed_def
        save_succeeded_def fetchRecipes_request_def fetchRecipes_resume_def Let_def
        split: option.splits)
qed simp_all

text \<open>An empty title or empty instructions block the submission.\<close>

lemma submit_blocked:
  "title d = [] \<or> instructions d = [] \<Longrightarrow> submit d = ValidationFailed"
  by (auto simp: submit_def)

subsection \<open>The delete dialog\<close>

text \<open>
  The delete dialog. Loads and saves leave the pending id and the open flag of the dialog
  alone.
\<close>

lemma dialog_toast [simp]:
  "recipeToDelete (toast t s) = recipeToDelete s"
  "deleteDialogOpen (toast t s) = deleteDialogOpen s"
  by (simp_all add: toast_def)

lemma dialog_send [simp]:
  "recipeToDelete (send q s) = recipeToDelete s"
  "deleteDialogOpen (send q s) = deleteDialogOpen s"
  by (simp_all add: send_def)

lemma dialog_resume [simp]:
  "recipeToDelete (fetchRecipes_resume freply s) = recipeToDelete s"
  "deleteDialogOpen (fetchRecipes_resume freply s) = deleteDialogOpen s"
  by (simp_all add: fetchRecipes_resume_def split: option.splits)

lemma dialog_settle [simp]:
  "recipeToDelete (settle freply p) = recipeToDelete (state_of p)"
  "deleteDialogOpen (settle freply p) = deleteDialogOpen (state_of p)"
  by (cases p; simp)+

lemma dialog_mount [simp]:
  "recipeToDelete (mount freply s) = recipeToDelete s"
  "deleteDialogOpen (mount freply s) = deleteDialogOpen s"
  by (simp_all add: mount_def mount_sync_def fetchRecipes_request_def split: option.splits)

lemma dialog_save [simp]:
  "recipeToDelete (handleSaveRecipe d mreply freply s) = recipeToDelete s"
  "deleteDialogOpen (handleSaveRecipe d mreply freply s) = deleteDialogOpen s"
  by (simp_all add: handleSaveRecipe_def handleSaveRecipe_sync_def save_failed_def
      save_succeeded_def fetchRecipes_request_def Let_def split: option.splits)

lemma pending_after_delete:
  "recipeToDelete (handleDeleteRecipe mreply freply s) =
     (case recipeToDelete s of
        None \<Rightarrow> None
      | Some i \<Rightarrow> if i = '''' then Some i else None)"
  by (simp add: handleDeleteRecipe_def handleDeleteRecipe_sync_def delete_finally_def
      fetchRecipes_request_def Let_def split: option.splits)

text \<open>What each event adds to the log of calls.\<close>

lemma requests_mount:
  "requests (mount freply s) =
     requests s @ (case user s of None \<Rightarrow> [] | Some u \<Rightarrow> [Select_all])"
  by (simp add: mount_def mount_sync_def fetchRecipes_request_def split: option.splits)

lemma requests_save:
  "requests (handleSaveRecipe d mreply freply s) =
     requests s @
       (case user s of
          None \<Rightarrow> []
        | Some u \<Rightarrow>
            (case editingRecipe s of
               Some er \<Rightarrow> Update (id_recipe er) d u
             | None \<Rightarrow> Insert d u) #
            (if thrown_by mreply = None then [Select_all] else []))"
  by (simp add: handleSaveRecipe_def handleSaveRecipe_sync_def save_failed_def
      save_succeeded_def fetchRecipes_request_def Let_def split: option.splits)

lemma requests_delete:
  "requests (handleDeleteRecipe mreply freply s) =
     requests s @
       (case recipeToDelete s of
          None \<Rightarrow> []
        | Some i \<Rightarrow>
            if i = '''' then []
            else Delete i # (if thrown_by mreply = None then [Select_all] else []))"
  by (simp add: handleDeleteRecipe_def handleDeleteRecipe_sync_def delete_finally_def
      fetchRecipes_request_def Let_def split: option.splits)

lemma sent_by_event:
  "sent_by e s =
     (case e of
        Mount freply \<Rightarrow> (case user s of None \<Rightarrow> [] | Some u \<Rightarrow> [Select_all])
      | ClickDialogAction mreply freply \<Rightarrow>
          (case recipeToDelete s of
             None \<Rightarrow> []
           | Some i \<Rightarrow>
               if i = '''' then []
               else Delete i # (if thrown_by mreply = None then [Select_all] else []))
      | OnSubmit d mreply freply \<Rightarrow>
          (case user s of
             None \<Rightarrow> []
           | Some u \<Rightarrow>
               (case editingRecipe s of
                  Some er \<Rightarrow> Update (id_recipe er) d u
                | None \<Rightarrow> Insert d u) #
               (if thrown_by mreply = None then [Select_all] else []))
      | _ \<Rightarrow> [])"
  by (cases e) (simp_all add: sent_by_def requests_mount requests_save requests_delete)

lemma requests_dashboard_step:
  "requests (dashboard_step e s) = requests s @ sent_by e s"
  by (cases e) (simp_all add: sent_by_def requests_mount requests_save requests_delete)

lemma delete_sent_only_by_action:
  assumes "Delete i \<in> set (sent_by e s)"
  shows "(\<exists>mreply freply. e = ClickDialogAction mreply freply) \<and>
         recipeToDelete s = Some i \<and> i \<noteq> ''''"
  using assms
  by (cases e) (auto simp: sent_by_event split: option.splits if_splits)

text \<open>The pending id and the open flag after an event.\<close>

lemma pending_kept:
  assumes "\<forall>j. e \<noteq> OnDelete j" and "\<forall>mreply freply. e \<noteq> ClickDialogAction mreply freply"
  shows "recipeToDelete (dashboard_step e s) = recipeToDelete s"
  using assms by (cases e) auto

lemma dialog_kept:
  assumes "quiet e" and "\<forall>b. e \<noteq> OnOpenChange b"
  shows "deleteDialogOpen (dashboard_step e s) = deleteDialogOpen s"
  using assms by (cases e) auto

lemma dialog_closed_after_action:
  "\<not> deleteDialogOpen (dashboard_step (ClickDialogAction mreply freply) s)"
  by simp

lemma dialog_opened_by_delete:
  assumes "ui_step m e s = Some s'" and "deleteDialogOpen s'" and "\<not> deleteDialogOpen s"
  shows "\<exists>j. e = OnDelete j"
  using assms by (cases e) (auto simp: ui_step_def split: if_splits)

text \<open>Runs of events on the page.\<close>

lemma ui_run_snoc:
  "ui_run m (es @ [e]) s =
     (case ui_run m es s of None \<Rightarrow> None | Some s' \<Rightarrow> ui_step m e s')"
  by (induction es arbitrary: s) (auto split: option.splits)

text \<open>
  While the dialog is open, the pending id is the id of the last delete button pressed,
  and nothing but quiet events came after it.
\<close>

lemma open_dialog_history:
  assumes "ui_run m es s0 = Some s" and "\<not> deleteDialogOpen s0" and "deleteDialogOpen s"
  shows "\<exists>j pre mid. es = pre @ OnDelete j # mid \<and> list_all quiet mid \<and>
           recipeToDelete s = Some j"
  using assms
proof (induction es arbitrary: s rule: rev_induct)
  case Nil
  then show ?case by simp
next
  case (snoc e es)
  from snoc.prems(1) obtain s1 where run: "ui_run m es s0 = Some s1"
      and step: "ui_step m e s1 = Some s"
    by (auto simp: ui_run_snoc split: option.splits)
  from step have rd: "rendered m e s1" and s: "s = dashboard_step e s1"
    by (auto simp: ui_step_def split: if_splits)
  show ?case
  proof (cases "\<exists>j. e = OnDelete j")
    case True
    then obtain j where "e = OnDelete j" by blast
    with s have "es @ [e] = es @ OnDelete j # [] \<and> list_all quiet [] \<and>
        recipeToDelete s = Some j"
      by simp
    then show ?thesis by blast
  next
    case False
    have q: "quiet e"
    proof (cases e)
      case (OnDelete j)
      with False show ?thesis by simp
    next
      case (ClickDialogAction mr fr)
      with s snoc.prems(3) show ?thesis by simp
    next
      case (OnOpenChange b)
      with s snoc.prems(3) show ?thesis by simp
    qed simp_all
    have open1: "deleteDialogOpen s1"
    proof (cases "\<exists>b. e = OnOpenChange b")
      case True
      with rd show ?thesis by auto
    next
      case False
      with q s snoc.prems(3) show ?thesis
        using dialog_kept [of e s1] by simp
    qed
    from q have "\<forall>mr fr. e \<noteq> ClickDialogAction mr fr"
      by auto
    with False s have keep: "recipeToDelete s = recipeToDelete s1"
      using pending_kept [of e s1] by simp
    from snoc.IH [OF run snoc.prems(2) open1] obtain j pre mid
      where "es = pre @ OnDelete j # mid" "list_all quiet mid" "recipeToDelete s1 = Some j"
      by blast
    with q keep have "es @ [e] = pre @ OnDelete j # (mid @ [e]) \<and>
        list_all quiet (mid @ [e]) \<and> recipeToDelete s = Some j"
      by simp
    then show ?thesis by blast
  qed
qed

lemma delete_follows_its_request:
  assumes "ui_run m es (initial_session u) = Some s" and "ui_step m e s = Some s'"
    and "Delete i \<in> set (sent_by e s)"
  shows "(\<exists>mreply freply. e = ClickDialogAction mreply freply) \<and> deleteDialogOpen s \<and>
         (\<exists>pre mid. es = pre @ OnDelete i # mid \<and> list_all quiet mid)"
proof -
  from assms(3) obtain mr fr where e: "e = ClickDialogAction mr fr"
      and p: "recipeToDelete s = Some i"
    using delete_sent_only_by_action [of i e s] by blast
  from assms(2) e have opn: "deleteDialogOpen s"
    by (simp add: ui_step_def split: if_splits)
  moreover have "\<not> deleteDialogOpen (initial_session u)"
    by (simp add: initial_session_def)
  ultimately obtain j pre mid where "es = pre @ OnDelete j # mid" "list_all quiet mid"
      "recipeToDelete s = Some j"
    using open_dialog_history [OF assms(1)] by blast
  with p e opn show ?thesis by auto
qed

section \<open>The collection store: failures and reloads\<close>

text \<open>
  Claim C4. A failing load, create, update or remove leaves the local collection as it
  was and shows one more notification, whose description is the message of the error
  the remote store gave: a load whose reply carries an error or is an exception; a
  create (no recipe being edited), an update (a recipe being edited) and a remove (a
  pending id) whose reply does. Every handler returns a session: the error is caught.
\<close>

theorem failures_keep_collection:
  "(thrown_by freply = Some err \<longrightarrow>
      recipes (fetchRecipes freply s) = recipes s \<and>
      toasts (fetchRecipes freply s) =
        toasts s @ [\<lparr>toast_title = ''Error fetching recipes'',
                     toast_description = Some (message err),
                     toast_variant = Some Destructive\<rparr>]) \<and>
   (user s = Some u \<and> editingRecipe s = None \<and> thrown_by mreply = Some err \<longrightarrow>
      recipes (handleSaveRecipe d mreply freply s) = recipes s \<and>
      toasts (handleSaveRecipe d mreply freply s) =
        toasts s @ [\<lparr>toast_title = ''Error creating recipe'',
                     toast_description = Some (message err),
                     toast_variant = Some Destructive\<rparr>]) \<and>
   (user s = Some u \<and> editingRecipe s = Some er \<and> thrown_by mreply = Some err \<longrightarrow>
      recipes (handleSaveRecipe d mreply freply s) = recipes s \<and>
      toasts (handleSaveRecipe d mreply freply s) =
        toasts s @ [\<lparr>toast_title = ''Error updating recipe'',
                     toast_description = Some (message err),
                     toast_variant = Some Destructive\<rparr>]) \<and>
   (recipeToDelete s = Some i \<and> i \<noteq> '''' \<and> thrown_by mreply = Some err \<longrightarrow>
      recipes (handleDeleteRecipe mreply freply s) = recipes s \<and>
      toasts (handleDeleteRecipe mreply freply s) =
        toasts s @ [\<lparr>toast_title = ''Error deleting recipe'',
                     toast_description = Some (message err),
                     toast_variant = Some Destructive\<rparr>])"
proof (intro conjI impI)
qed (simp_all add: fetchRecipes_def fetchRecipes_request_def fetchRecipes_resume_failed
      handleSaveRecipe_def handleSaveRecipe_sync_def save_failed_def
      handleDeleteRecipe_def handleDeleteRecipe_sync_def delete_finally_def)

text \<open>
  The four failures on the loaded example session: the three recipes stay, and the
  notification carries the store's message.
\<close>

theorem failures_keep_collection_witness:
  "recipes (fetchRecipes (Rejected (JsError ''Failed to fetch'')) loaded_session) =
     [pasta_bake, tacos, ramen] \<and>
   toasts (fetchRecipes (Rejected (JsError ''Failed to fetch'')) loaded_session) =
     [\<lparr>toast_title = ''Error fetching recipes'', toast_description = Some ''Failed to fetch'',
       toast_variant = Some Destructive\<rparr>] \<and>
   recipes (handleSaveRecipe initial_formData (Resolved None (Some (JsError ''denied'')))
              (Resolved (Some []) None) loaded_session) = [pasta_bake, tacos, ramen] \<and>
   toasts (handleSaveRecipe initial_formData (Resolved None (Some (JsError ''denied'')))
              (Resolved (Some []) None) loaded_session) =
     [\<lparr>toast_title = ''Error creating recipe'', toast_description = Some ''denied'',
       toast_variant = Some Destructive\<rparr>] \<and>
   recipes (handleSaveRecipe initial_formData (Resolved None (Some (JsError ''denied'')))
              (Resolved (Some []) None) (dashboard_step (OnEdit tacos) loaded_session)) =
     [pasta_bake, tacos, ramen] \<and>
   toasts (handleSaveRecipe initial_formData (Resolved None (Some (JsError ''denied'')))
              (Resolved (Some []) None) (dashboard_step (OnEdit tacos) loaded_session)) =
     [\<lparr>toast_title = ''Error updating recipe'', toast_description = Some ''denied'',
       toast_variant = Some Destructive\<rparr>] \<and>
   recipes (handleDeleteRecipe (Resolved None (Some (JsError ''denied'')))
              (Resolved (Some []) None) (dashboard_step (OnDelete ''r1'') loaded_session)) =
     [pasta_bake, tacos, ramen] \<and>
   toasts (handleDeleteRecipe (Resolved None (Some (JsError ''denied'')))
              (Resolved (Some []) None) (dashboard_step (OnDelete ''r1'') loaded_session)) =
     [\<lparr>toast_title = ''Error deleting recipe'', toast_description = Some ''denied'',
       toast_variant = Some Destructive\<rparr>]"
proof -
  let ?bad = "Resolved None (Some (JsError ''denied'')) :: unit reply"
  let ?f = "Resolved (Some []) None :: recipe list reply"
  have load: "thrown_by (Rejected (JsError ''Failed to fetch'') :: recipe list reply) =
      Some (JsError ''Failed to fetch'')"
    by simp
  have bad: "thrown_by ?bad = Some (JsError ''denied'')"
    by simp
  note a = failures_keep_collection
    [where freply = "Rejected (JsError ''Failed to fetch'')"
       and err = "JsError ''Failed to fetch''" and s = loaded_session]
  note b = failures_keep_collection
    [where mreply = ?bad and err = "JsError ''denied''" and s = loaded_session
       and u = "''u1''" and d = initial_formData and freply = ?f]
  note c = failures_keep_collection
    [where mreply = ?bad and err = "JsError ''denied''"
       and s = "dashboard_step (OnEdit tacos) loaded_session" and u = "''u1''"
       and er = tacos and d = initial_formData and freply = ?f]
  note d = failures_keep_collection
    [where mreply = ?bad and err = "JsError ''denied''"
       and s = "dashboard_step (OnDelete ''r1'') loaded_session" and i = "''r1''"
       and freply = ?f]
  show ?thesis
    using load bad a b c d by (simp add: loaded_session_eq)
qed

text \<open>
  Claim C5. A create or update that succeeds sends, after its own request, the select
  of a full load, and so does a remove that succeeds; the collection afterwards is the
  list that load fetched (or the old collection when the load itself failed). Whatever
  happens on the dashboard, the collection either stays as it is or becomes, whole, the
  list of a load that succeeded: nothing patches it.
\<close>

theorem collection_changes_only_by_reload:
  "(user s = Some u \<and> thrown_by mreply = None \<longrightarrow>
      requests (handleSaveRecipe d mreply freply s) =
        requests s @
          [case editingRecipe s of Some er \<Rightarrow> Update (id_recipe er) d u | None \<Rightarrow> Insert d u,
           Select_all] \<and>
      recipes (handleSaveRecipe d mreply freply s) =
        (case thrown_by freply of None \<Rightarrow> data_or_empty freply | Some err \<Rightarrow> recipes s)) \<and>
   (recipeToDelete s = Some i \<and> i \<noteq> '''' \<and> thrown_by mreply = None \<longrightarrow>
      requests (handleDeleteRecipe mreply freply s) = requests s @ [Delete i, Select_all] \<and>
      recipes (handleDeleteRecipe mreply freply s) =
        (case thrown_by freply of None \<Rightarrow> data_or_empty freply | Some err \<Rightarrow> recipes s)) \<and>
   (recipes (dashboard_step e s) = recipes s \<or>
    (\<exists>freply. load_reply e = Some freply \<and> thrown_by freply = None \<and>
       recipes (dashboard_step e s) = data_or_empty freply))"
proof (intro conjI impI)
  assume h: "user s = Some u \<and> thrown_by mreply = None"
  then show "requests (handleSaveRecipe d mreply freply s) =
        requests s @
          [case editingRecipe s of Some er \<Rightarrow> Update (id_recipe er) d u | None \<Rightarrow> Insert d u,
           Select_all]"
    by (simp add: handleSaveRecipe_def handleSaveRecipe_sync_def save_succeeded_def
        fetchRecipes_request_def split: option.splits)
  from h show "recipes (handleSaveRecipe d mreply freply s) =
        (case thrown_by freply of None \<Rightarrow> data_or_empty freply | Some err \<Rightarrow> recipes s)"
    by (simp add: handleSaveRecipe_def handleSaveRecipe_sync_def save_succeeded_def
        fetchRecipes_request_def recipes_fetchRecipes_resume split: option.splits)
next
  assume h: "recipeToDelete s = Some i \<and> i \<noteq> '''' \<and> thrown_by mreply = None"
  then show "requests (handleDeleteRecipe mreply freply s) =
        requests s @ [Delete i, Select_all]"
    by (simp add: handleDeleteRecipe_def handleDeleteRecipe_sync_def delete_finally_def
        fetchRecipes_request_def)
  from h show "recipes (handleDeleteRecipe mreply freply s) =
        (case thrown_by freply of None \<Rightarrow> data_or_empty freply | Some err \<Rightarrow> recipes s)"
    by (simp add: handleDeleteRecipe_def handleDeleteRecipe_sync_def delete_finally_def
        fetchRecipes_request_def recipes_fetchRecipes_resume split: option.splits)
next
  show "recipes (dashboard_step e s) = recipes s \<or>
    (\<exists>freply. load_reply e = Some freply \<and> thrown_by freply = None \<and>
       recipes (dashboard_step e s) = data_or_empty freply)"
    by (rule recipes_dashboard_step)
qed

text \<open>
  A create that succeeds, with a load that brings one recipe, and a remove that
  succeeds, with a load that fails, on the loaded example session.
\<close>

theorem collection_changes_only_by_reload_witness:
  "requests (handleSaveRecipe initial_formData (Resolved None None)
      (Resolved (Some [ramen]) None) loaded_session) =
     [Select_all, Insert initial_formData ''u1'', Select_all] \<and>
   recipes (handleSaveRecipe initial_formData (Resolved None None)
      (Resolved (Some [ramen]) None) loaded_session) = [ramen] \<and>
   requests (handleDeleteRecipe (Resolved None None) (Rejected (JsError ''Failed to fetch''))
      (dashboard_step (OnDelete ''r1'') loaded_session)) =
     [Select_all, Delete ''r1'', Select_all] \<and>
   recipes (handleDeleteRecipe (Resolved None None) (Rejected (JsError ''Failed to fetch''))
      (dashboard_step (OnDelete ''r1'') loaded_session)) = [pasta_bake, tacos, ramen]"
proof -
  note a = collection_changes_only_by_reload
    [where s = loaded_session and u = "''u1''" and mreply = "Resolved None None"
       and d = initial_formData and freply = "Resolved (Some [ramen]) None"]
  note b = collection_changes_only_by_reload
    [where s = "dashboard_step (OnDelete ''r1'') loaded_session" and i = "''r1''"
       and mreply = "Resolved None None"
       and freply = "Rejected (JsError ''Failed to fetch'')"]
  show ?thesis
    using a b by (simp add: loaded_session_eq data_or_empty_def)
qed

section \<open>The loading flag\<close>

text \<open>
  Claim C9 as stated, that the loading flag is true whenever a load is on its way, fails:
  on the loaded example session, whose first load is over, a create that succeeds starts
  a load, and while that load is on its way the flag is false.
\<close>

theorem reload_with_loading_false:
  "awaiting_load (handleSaveRecipe_sync initial_formData (Resolved None None) loaded_session) \<and>
   \<not> loading (state_of
        (handleSaveRecipe_sync initial_formData (Resolved None None) loaded_session))"
  by (simp add: loaded_session_eq handleSaveRecipe_sync_def save_succeeded_def
      fetchRecipes_request_def)

text \<open>
  Claim C9, amended. A load never sets the loading flag to true: sending the select
  leaves the flag as it is, and the end of the load, successful or not, sets it to
  false. The flag is true from the start of the dashboard, so it is true while the first
  load, the one of the effect hook, is on its way. The handlers of save and delete leave
  the flag as it is up to the load they start, and once the flag is false nothing on
  the dashboard makes it true again: a load started after the first one has ended is on
  its way with the flag false.
\<close>

theorem loading_flag_behaviour:
  "loading (fetchRecipes_request s) = loading s \<and>
   \<not> loading (fetchRecipes_resume freply s) \<and>
   mount_sync (initial_session (Some u)) =
     Awaiting_load (fetchRecipes_request (initial_session (Some u))) \<and>
   loading (fetchRecipes_request (initial_session (Some u))) \<and>
   loading (state_of (handleSaveRecipe_sync d mreply s)) = loading s \<and>
   loading (state_of (handleDeleteRecipe_sync mreply s)) = loading s \<and>
   (\<not> loading s \<longrightarrow> \<not> loading (dashboard_step e s))"
proof (intro conjI)
  show "loading (fetchRecipes_request s) = loading s"
    by (simp add: fetchRecipes_request_def)
  show "\<not> loading (fetchRecipes_resume freply s)"
    by (simp add: fetchRecipes_resume_def split: option.splits)
  show "mount_sync (initial_session (Some u)) =
     Awaiting_load (fetchRecipes_request (initial_session (Some u)))"
    by (simp add: mount_sync_def initial_session_def)
  show "loading (fetchRecipes_request (initial_session (Some u)))"
    by (simp add: fetchRecipes_request_def initial_session_def)
  show "loading (state_of (handleSaveRecipe_sync d mreply s)) = loading s"
    by (simp add: handleSaveRecipe_sync_def save_failed_def save_succeeded_def
        fetchRecipes_request_def Let_def split: option.splits)
  show "loading (state_of (handleDeleteRecipe_sync mreply s)) = loading s"
    by (simp add: handleDeleteRecipe_sync_def delete_finally_def
        fetchRecipes_request_def Let_def split: option.splits)
  show "\<not> loading s \<longrightarrow> \<not> loading (dashboard_step e s)"
    using loading_stays_false by blast
qed

theorem loading_flag_behaviour_witness:
  "\<not> loading loaded_session \<and>
   \<not> loading (dashboard_step
       (OnSubmit initial_formData (Resolved None None) (Resolved (Some [ramen]) None))
       loaded_session)"
proof -
  have "\<not> loading loaded_session"
    by (simp add: loaded_session_eq)
  then show ?thesis
    using loading_flag_behaviour
      [where s = loaded_session
         and e = "OnSubmit initial_formData (Resolved None None) (Resolved (Some [ramen]) None)"]
    by simp
qed

section \<open>Required fields\<close>

text \<open>
  Claim C3. A draft with an empty title or empty instructions is rejected at the form
  boundary (\<open>submit_blocked\<close>). A draft whose ingredients are all blank is not: with a
  title and instructions, the new draft's single blank slot is filtered away, the draft
  is handed on with no ingredient at all, and the dashboard sends it to the remote
  store as an insert.
\<close>

theorem submit_blank_ingredients_dispatched:
  "submit (initial_formData\<lparr>title := js ''Soup'', instructions := js ''Boil''\<rparr>) =
     Dispatched (initial_formData\<lparr>title := js ''Soup'', instructions := js ''Boil'',
                  ingredients := []\<rparr>) \<and>
   requests (handleSaveRecipe
       (initial_formData\<lparr>title := js ''Soup'', instructions := js ''Boil'', ingredients := []\<rparr>)
       (Resolved None None) (Resolved (Some []) None) loaded_session) =
     [Select_all,
      Insert (initial_formData\<lparr>title := js ''Soup'', instructions := js ''Boil'',
                ingredients := []\<rparr>) ''u1'',
      Select_all]"
  by (simp add: submit_def rangeUnderflow_def handleSubmit_def initial_formData_def trim_def
      js_def loaded_session_eq
      handleSaveRecipe_def handleSaveRecipe_sync_def save_succeeded_def
      fetchRecipes_request_def)

section \<open>The delete dialog\<close>

text \<open>
  Claim C8 as stated, that cancelling the confirmation clears the pending id, fails:
  after asking to delete recipe \<open>r1\<close> and cancelling, \<open>r1\<close> is still pending.
\<close>

theorem cancel_keeps_pending_id:
  "recipeToDelete
     (dashboard_run [OnDelete ''r1'', OnOpenChange False] loaded_session) = Some ''r1''"
  by (simp add: loaded_session_eq)

text \<open>
  Claim C8, amended. Every event adds its requests at the end of the log, and a delete
  is among them only when the event is the action button of the dialog and the id is
  the pending one; the action button then sends that one delete and clears the pending
  id. The action button is on the page only while the dialog is open, and pressing it
  closes the dialog. In a session from the start, a delete that is sent follows a press
  of the delete button of that very id, with nothing in between but events that leave
  the dialog alone: no cancel, no other delete button, no other confirmation.
  Cancelling closes the dialog and changes nothing else, so the collection stays, no
  request is sent and the pending id stays; after it the action button is gone. The
  pending id stays under every event but a delete button, which replaces it, and the
  action button; and the dialog is opened by a delete button only.
\<close>

theorem delete_needs_confirmation:
  "requests (dashboard_step e s) = requests s @ sent_by e s \<and>
   (Delete i \<in> set (sent_by e s) \<longrightarrow>
      (\<exists>mreply freply. e = ClickDialogAction mreply freply) \<and> recipeToDelete s = Some i) \<and>
   (recipeToDelete s = Some i \<and> i \<noteq> '''' \<longrightarrow>
      sent_by (ClickDialogAction mreply freply) s =
        Delete i # (if thrown_by mreply = None then [Select_all] else []) \<and>
      recipeToDelete (dashboard_step (ClickDialogAction mreply freply) s) = None) \<and>
   (ui_step m (ClickDialogAction mreply freply) s = Some s' \<longrightarrow>
      deleteDialogOpen s \<and> \<not> deleteDialogOpen s') \<and>
   (ui_run m es (initial_session u) = Some s \<and> ui_step m e s = Some s' \<and>
    Delete i \<in> set (sent_by e s) \<longrightarrow>
      deleteDialogOpen s \<and>
      (\<exists>pre mid. es = pre @ OnDelete i # mid \<and> list_all quiet mid)) \<and>
   dashboard_step (OnOpenChange False) s = s\<lparr>deleteDialogOpen := False\<rparr> \<and>
   ui_step m (ClickDialogAction mreply freply) (dashboard_step (OnOpenChange False) s) = None \<and>
   ((\<forall>j. e \<noteq> OnDelete j) \<and> (\<forall>mr fr. e \<noteq> ClickDialogAction mr fr) \<longrightarrow>
      recipeToDelete (dashboard_step e s) = recipeToDelete s) \<and>
   recipeToDelete (dashboard_step (OnDelete j) s) = Some j \<and>
   (ui_step m e s = Some s' \<and> deleteDialogOpen s' \<and> \<not> deleteDialogOpen s \<longrightarrow>
      (\<exists>j. e = OnDelete j))"
proof -
  have log: "requests (dashboard_step e s) = requests s @ sent_by e s"
    by (rule requests_dashboard_step)
  have only: "Delete i \<in> set (sent_by e s) \<longrightarrow>
      (\<exists>mreply freply. e = ClickDialogAction mreply freply) \<and> recipeToDelete s = Some i"
    using delete_sent_only_by_action [of i e s] by blast
  have confirm: "recipeToDelete s = Some i \<and> i \<noteq> '''' \<longrightarrow>
      sent_by (ClickDialogAction mreply freply) s =
        Delete i # (if thrown_by mreply = None then [Select_all] else []) \<and>
      recipeToDelete (dashboard_step (ClickDialogAction mreply freply) s) = None"
    by (simp add: sent_by_event pending_after_delete)
  have guard: "ui_step m (ClickDialogAction mreply freply) s = Some s' \<longrightarrow>
      deleteDialogOpen s \<and> \<not> deleteDialogOpen s'"
    by (auto simp: ui_step_def split: if_splits)
  have trace: "ui_run m es (initial_session u) = Some s \<and> ui_step m e s = Some s' \<and>
    Delete i \<in> set (sent_by e s) \<longrightarrow>
      deleteDialogOpen s \<and>
      (\<exists>pre mid. es = pre @ OnDelete i # mid \<and> list_all quiet mid)"
    using delete_follows_its_request [of m es u s e s' i] by blast
  have cancel: "dashboard_step (OnOpenChange False) s = s\<lparr>deleteDialogOpen := False\<rparr>"
    by simp
  have after_cancel:
    "ui_step m (ClickDialogAction mreply freply) (dashboard_step (OnOpenChange False) s) = None"
    by (simp add: ui_step_def)
  have kept: "(\<forall>j. e \<noteq> OnDelete j) \<and> (\<forall>mr fr. e \<noteq> ClickDialogAction mr fr) \<longrightarrow>
      recipeToDelete (dashboard_step e s) = recipeToDelete s"
    using pending_kept [of e s] by blast
  have replaced: "recipeToDelete (dashboard_step (OnDelete j) s) = Some j"
    by simp
  have opened: "ui_step m e s = Some s' \<and> deleteDialogOpen s' \<and> \<not> deleteDialogOpen s \<longrightarrow>
      (\<exists>j. e = OnDelete j)"
    using dialog_opened_by_delete [of m e s s'] by blast
  from log only confirm guard trace cancel after_cancel kept replaced opened
  show ?thesis by (intro conjI)
qed

text \<open>
  A session from the start: the load, the delete button of \<open>r1\<close>, a cancel, the delete
  button of \<open>r2\<close>, and then the action button. The delete sent is that of \<open>r2\<close>, it
  follows the delete button of \<open>r2\<close> directly, and a cancel or a change of the search
  text at that point would have left \<open>r2\<close> pending.
\<close>

theorem delete_needs_confirmation_witness:
  "ui_run unicode_excerpt
     [Mount (Resolved (Some [pasta_bake, tacos, ramen]) None), OnDelete ''r1'',
      OnOpenChange False, OnDelete ''r2'']
     (initial_session (Some ''u1'')) =
     Some (loaded_session\<lparr>recipeToDelete := Some ''r2'', deleteDialogOpen := True\<rparr>) \<and>
   ui_step unicode_excerpt
     (ClickDialogAction (Resolved None None) (Resolved (Some [pasta_bake, tacos]) None))
     (loaded_session\<lparr>recipeToDelete := Some ''r2'', deleteDialogOpen := True\<rparr>) =
     Some (loaded_session
       \<lparr>recipes := [pasta_bake, tacos],
        toasts := [\<lparr>toast_title = ''Recipe deleted successfully'', toast_description = None,
                    toast_variant = None\<rparr>],
        requests := [Select_all, Delete ''r2'', Select_all]\<rparr>) \<and>
   sent_by
     (ClickDialogAction (Resolved None None) (Resolved (Some [pasta_bake, tacos]) None))
     (loaded_session\<lparr>recipeToDelete := Some ''r2'', deleteDialogOpen := True\<rparr>) =
     [Delete ''r2'', Select_all] \<and>
   (\<exists>pre mid.
      [Mount (Resolved (Some [pasta_bake, tacos, ramen]) None), OnDelete ''r1'',
       OnOpenChange False, OnDelete ''r2''] = pre @ OnDelete ''r2'' # mid \<and>
      list_all quiet mid) \<and>
   recipeToDelete
     (dashboard_step (OnOpenChange False)
        (loaded_session\<lparr>recipeToDelete := Some ''r2'', deleteDialogOpen := True\<rparr>)) =
     Some ''r2'' \<and>
   recipeToDelete
     (dashboard_step (ChangeSearchTerm (js ''ra''))
        (loaded_session\<lparr>recipeToDelete := Some ''r2'', deleteDialogOpen := True\<rparr>)) =
     Some ''r2''"
proof -
  let ?es = "[Mount (Resolved (Some [pasta_bake, tacos, ramen]) None), OnDelete ''r1'',
      OnOpenChange False, OnDelete ''r2'']"
  let ?e = "ClickDialogAction (Resolved None None) (Resolved (Some [pasta_bake, tacos]) None)"
  let ?s = "loaded_session\<lparr>recipeToDelete := Some ''r2'', deleteDialogOpen := True\<rparr>"
  let ?s' = "loaded_session
       \<lparr>recipes := [pasta_bake, tacos],
        toasts := [\<lparr>toast_title = ''Recipe deleted successfully'', toast_description = None,
                    toast_variant = None\<rparr>],
        requests := [Select_all, Delete ''r2'', Select_all]\<rparr>"
  have mounted: "mount (Resolved (Some [pasta_bake, tacos, ramen]) None)
      (initial_session (Some ''u1'')) = loaded_session"
    by (simp add: loaded_session_def)
  have ids: "id_recipe pasta_bake = ''r0''" "id_recipe tacos = ''r1''"
    "id_recipe ramen = ''r2''"
    by (simp_all add: pasta_bake_def tacos_def ramen_def)
  have run: "ui_run unicode_excerpt ?es (initial_session (Some ''u1'')) = Some ?s"
    by (simp add: ui_step_def mounted filteredRecipes_neutral ids loaded_session_eq)
  have step: "ui_step unicode_excerpt ?e ?s = Some ?s'"
    by (simp add: ui_step_def loaded_session_eq handleDeleteRecipe_def
        handleDeleteRecipe_sync_def delete_finally_def fetchRecipes_request_def
        fetchRecipes_resume_def send_def toast_def data_or_empty_def)
  have sent: "sent_by ?e ?s = [Delete ''r2'', Select_all]"
    by (simp add: sent_by_event)
  then have del: "Delete ''r2'' \<in> set (sent_by ?e ?s)"
    by simp
  note a = delete_needs_confirmation
    [where m = unicode_excerpt and es = ?es and u = "Some ''u1''" and s = ?s and e = ?e
       and s' = ?s' and i = "''r2''" and mreply = "Resolved None None"
       and freply = "Resolved (Some [pasta_bake, tacos]) None" and j = "''r2''"]
  note b = delete_needs_confirmation
    [where e = "ChangeSearchTerm (js ''ra'')" and s = ?s]
  from a run step del
  have hist: "\<exists>pre mid. ?es = pre @ OnDelete ''r2'' # mid \<and> list_all quiet mid"
    by blast
  from a have "dashboard_step (OnOpenChange False) ?s = ?s\<lparr>deleteDialogOpen := False\<rparr>"
    by blast
  then have cancel: "recipeToDelete (dashboard_step (OnOpenChange False) ?s) = Some ''r2''"
    by simp
  have "(\<forall>j. ChangeSearchTerm (js ''ra'') \<noteq> OnDelete j) \<and>
      (\<forall>mr fr. ChangeSearchTerm (js ''ra'') \<noteq> ClickDialogAction mr fr)"
    by simp
  with b have "recipeToDelete (dashboard_step (ChangeSearchTerm (js ''ra'')) ?s) =
      recipeToDelete ?s"
    by blast
  then have kept: "recipeToDelete (dashboard_step (ChangeSearchTerm (js ''ra'')) ?s) =
      Some ''r2''"
    by simp
  from run step sent hist cancel kept show ?thesis
    by (intro conjI)
qed

end
